theory Spec2Isabelle
  imports Complex_Main "HOL-Library.Char_ord" "HOL-Library.List_Lexorder"
    "HOL-Library.Product_Lexorder"
begin

unbundle bit_operations_syntax

section \<open>MULTREGTScanner: data model\<close>

text \<open>
  The embedding follows \<^verbatim>\<open>MULTREGTScanner.cpp\<close>. Exceptions are values of type
  \<open>error\<close>; the integer division by a zero grid extent in \<^verbatim>\<open>getRegionMultiplier\<close>
  (undefined in C++) is an error of its own, as is the \<^verbatim>\<open>out_of_range\<close> of
  \<^verbatim>\<open>std::map::at\<close>. A \<^verbatim>\<open>double\<close> is a \<open>real\<close>: the scanner
  only stores and returns multipliers, it does no arithmetic on them.
\<close>

datatype error = invalid_argument | logic_error | out_of_range | division_by_zero

text \<open>\<^verbatim>\<open>MULTREGT::NNCBehaviourEnum\<close>; \<^verbatim>\<open>ALL\<close> is written \<open>ALL_nnc\<close>.\<close>

datatype NNCBehaviourEnum = ALL_nnc | NNC | NONNC | NOAQUNNC

record MULTREGTRecord =
  src_value :: int
  target_value :: int
  trans_mult :: real
  directions :: int
  nnc_behaviour :: NNCBehaviourEnum
  region_name :: string

text \<open>
  A deck item: the value \<^verbatim>\<open>get<T>(0)\<close> returns and the flag \<^verbatim>\<open>defaultApplied(0)\<close>.
  A deck record has the six items the scanner reads; a keyword occurrence is the list
  of its records.
\<close>

record 'a DeckItem =
  item_value :: 'a
  defaultApplied :: bool

record DeckRecord =
  SRC_REGION :: "int DeckItem"
  TARGET_REGION :: "int DeckItem"
  TRAN_MULT :: "real DeckItem"
  DIRECTIONS :: "string DeckItem"
  NNC_MULT :: "string DeckItem"
  REGION_DEF :: "string DeckItem"

type_synonym DeckKeyword = "DeckRecord list"

text \<open>
  The collaborators whose code is not part of the file are parameters: an integer grid
  property with its accessor and extents, and the property container. The direction
  parser \<^verbatim>\<open>FaceDir::FromMULTREGTString\<close> is passed as the argument \<open>fromString\<close>.
\<close>

record GridProperty =
  iget :: "nat \<Rightarrow> int"
  getNX :: nat
  getNY :: nat

record Eclipse3DProperties =
  hasDeckIntGridProperty :: "string \<Rightarrow> bool"
  getIntGridProperty :: "string \<Rightarrow> GridProperty"
  getRegions :: "string \<Rightarrow> int list"
  getDefaultRegionKeyword :: string

section \<open>std::map as a key-sorted association list\<close>

text \<open>
  \<^verbatim>\<open>std::map\<close> iterates in increasing key order; \<^verbatim>\<open>std::string\<close> compares bytes
  lexicographically and \<^verbatim>\<open>std::pair\<close> compares componentwise, first component first.
  \<open>map_assign k v m\<close> is \<^verbatim>\<open>m[k] = v\<close>, \<open>map_count\<close> is \<^verbatim>\<open>count\<close>, \<open>map_at\<close> is
  \<^verbatim>\<open>at\<close> (\<open>None\<close> where \<^verbatim>\<open>at\<close> throws) and \<open>map_index\<close> reads \<^verbatim>\<open>m[k]\<close> of a key
  that was inserted before.
\<close>

type_synonym ('k, 'v) std_map = "('k \<times> 'v) list"

fun map_assign :: "'k::linorder \<Rightarrow> 'v \<Rightarrow> ('k, 'v) std_map \<Rightarrow> ('k, 'v) std_map" where
  "map_assign k v [] = [(k, v)]"
| "map_assign k v (e # es) =
     (if fst e < k then e # map_assign k v es
      else if fst e = k then (k, v) # es
      else (k, v) # e # es)"

definition map_count :: "('k, 'v) std_map \<Rightarrow> 'k \<Rightarrow> nat" where
  "map_count m k = length (filter (\<lambda>e. fst e = k) m)"

definition map_at :: "('k, 'v) std_map \<Rightarrow> 'k \<Rightarrow> 'v option" where
  "map_at m k = map_of m k"

definition map_index :: "'v \<Rightarrow> ('k, 'v) std_map \<Rightarrow> 'k \<Rightarrow> 'v" where
  "map_index d m k = (case map_of m k of None \<Rightarrow> d | Some v \<Rightarrow> v)"

type_synonym MULTREGTSearchMap = "(int \<times> int, MULTREGTRecord) std_map"

record MULTREGTScanner =
  m_e3DProps :: Eclipse3DProperties
  m_records :: "MULTREGTRecord list"
  m_searchMap :: "(string, MULTREGTSearchMap) std_map"

section \<open>Token resolvers\<close>

definition RegionNameFromDeckValue :: "string \<Rightarrow> error + string" where
  "RegionNameFromDeckValue stringValue =
     (if stringValue = ''O'' then Inr ''OPERNUM''
      else if stringValue = ''F'' then Inr ''FLUXNUM''
      else if stringValue = ''M'' then Inr ''MULTNUM''
      else Inl invalid_argument)"

definition NNCBehaviourFromString :: "string \<Rightarrow> error + NNCBehaviourEnum" where
  "NNCBehaviourFromString stringValue =
     (if stringValue = ''ALL'' then Inr ALL_nnc
      else if stringValue = ''NNC'' then Inr NNC
      else if stringValue = ''NONNC'' then Inr NONNC
      else if stringValue = ''NOAQUNNC'' then Inr NOAQUNNC
      else Inl invalid_argument)"

section \<open>Validation\<close>

text \<open>The body of the loop of \<^verbatim>\<open>assertKeywordSupported\<close>, then the loop.\<close>

definition assertRecordSupported :: "DeckRecord \<Rightarrow> error + unit" where
  "assertRecordSupported deckRecord =
     (let srcItem = SRC_REGION deckRecord; targetItem = TARGET_REGION deckRecord
      in case NNCBehaviourFromString (item_value (NNC_MULT deckRecord)) of
           Inl e \<Rightarrow> Inl e
         | Inr nnc \<Rightarrow>
             if \<not> defaultApplied srcItem \<and> \<not> defaultApplied targetItem
                \<and> item_value srcItem = item_value targetItem
             then Inl invalid_argument
             else if nnc = NOAQUNNC then Inl invalid_argument
             else Inr ())"

fun assertKeywordSupported :: "DeckKeyword \<Rightarrow> string \<Rightarrow> error + unit" where
  "assertKeywordSupported [] defaultRegion = Inr ()"
| "assertKeywordSupported (deckRecord # rest) defaultRegion =
     (case assertRecordSupported deckRecord of
        Inl e \<Rightarrow> Inl e
      | Inr u \<Rightarrow> assertKeywordSupported rest defaultRegion)"

section \<open>Expansion\<close>

text \<open>
  The two nested loops at the end of the record body of \<^verbatim>\<open>addKeyword\<close>: every step
  is one \<^verbatim>\<open>push_back\<close> on \<^verbatim>\<open>m_records\<close>.
\<close>

fun push_targets ::
  "int \<Rightarrow> int list \<Rightarrow> real \<Rightarrow> int \<Rightarrow> NNCBehaviourEnum \<Rightarrow> string
     \<Rightarrow> MULTREGTRecord list \<Rightarrow> MULTREGTRecord list" where
  "push_targets src_region [] tm dirs nnc rname recs = recs"
| "push_targets src_region (target_region # rest) tm dirs nnc rname recs =
     push_targets src_region rest tm dirs nnc rname
       (recs @ [\<lparr>src_value = src_region, target_value = target_region, trans_mult = tm,
                 directions = dirs, nnc_behaviour = nnc, region_name = rname\<rparr>])"

fun push_sources ::
  "int list \<Rightarrow> int list \<Rightarrow> real \<Rightarrow> int \<Rightarrow> NNCBehaviourEnum \<Rightarrow> string
     \<Rightarrow> MULTREGTRecord list \<Rightarrow> MULTREGTRecord list" where
  "push_sources [] target_regions tm dirs nnc rname recs = recs"
| "push_sources (src_region # rest) target_regions tm dirs nnc rname recs =
     push_sources rest target_regions tm dirs nnc rname
       (push_targets src_region target_regions tm dirs nnc rname recs)"

text \<open>
  The categorization of a record: inherited from the last rule of \<^verbatim>\<open>m_records\<close> when
  the item is defaulted and the list is not empty, the default region when it is empty,
  and the O/F/M code otherwise.
\<close>

definition resolve_region_name ::
  "DeckRecord \<Rightarrow> string \<Rightarrow> MULTREGTRecord list \<Rightarrow> error + string" where
  "resolve_region_name deckRecord defaultRegion recs =
     (let regionItem = REGION_DEF deckRecord
      in if defaultApplied regionItem
         then (if recs \<noteq> [] then Inr (region_name (last recs)) else Inr defaultRegion)
         else RegionNameFromDeckValue (item_value regionItem))"

definition region_set :: "Eclipse3DProperties \<Rightarrow> string \<Rightarrow> int DeckItem \<Rightarrow> int list" where
  "region_set props rname item =
     (if defaultApplied item \<or> item_value item < 0
      then getRegions props rname
      else [item_value item])"

text \<open>
  One pass of the record loop of \<^verbatim>\<open>addKeyword\<close>. The result is \<^verbatim>\<open>m_records\<close> after
  the pass and the exception raised, if any: a throw leaves \<^verbatim>\<open>m_records\<close> as it was
  at that moment.
\<close>

definition addRecord ::
  "(string \<Rightarrow> error + int) \<Rightarrow> Eclipse3DProperties \<Rightarrow> string \<Rightarrow> DeckRecord
     \<Rightarrow> MULTREGTRecord list \<Rightarrow> MULTREGTRecord list \<times> error option" where
  "addRecord fromString props defaultRegion deckRecord recs =
     (let tm = item_value (TRAN_MULT deckRecord)
      in case fromString (item_value (DIRECTIONS deckRecord)) of
           Inl e \<Rightarrow> (recs, Some e)
         | Inr dirs \<Rightarrow>
            (case NNCBehaviourFromString (item_value (NNC_MULT deckRecord)) of
               Inl e \<Rightarrow> (recs, Some e)
             | Inr nnc \<Rightarrow>
                (case resolve_region_name deckRecord defaultRegion recs of
                   Inl e \<Rightarrow> (recs, Some e)
                 | Inr rname \<Rightarrow>
                     (push_sources (region_set props rname (SRC_REGION deckRecord))
                        (region_set props rname (TARGET_REGION deckRecord))
                        tm dirs nnc rname recs, None))))"

fun addRecords ::
  "(string \<Rightarrow> error + int) \<Rightarrow> Eclipse3DProperties \<Rightarrow> string \<Rightarrow> DeckKeyword
     \<Rightarrow> MULTREGTRecord list \<Rightarrow> MULTREGTRecord list \<times> error option" where
  "addRecords fromString props defaultRegion [] recs = (recs, None)"
| "addRecords fromString props defaultRegion (deckRecord # rest) recs =
     (case addRecord fromString props defaultRegion deckRecord recs of
        (recs', Some e) \<Rightarrow> (recs', Some e)
      | (recs', None) \<Rightarrow> addRecords fromString props defaultRegion rest recs')"

definition addKeyword ::
  "(string \<Rightarrow> error + int) \<Rightarrow> Eclipse3DProperties \<Rightarrow> DeckKeyword \<Rightarrow> string
     \<Rightarrow> MULTREGTRecord list \<Rightarrow> MULTREGTRecord list \<times> error option" where
  "addKeyword fromString props deckKeyword defaultRegion recs =
     (case assertKeywordSupported deckKeyword defaultRegion of
        Inl e \<Rightarrow> (recs, Some e)
      | Inr u \<Rightarrow> addRecords fromString props defaultRegion deckKeyword recs)"

section \<open>The constructor: rule list, then index\<close>

fun addKeywords ::
  "(string \<Rightarrow> error + int) \<Rightarrow> Eclipse3DProperties \<Rightarrow> DeckKeyword list
     \<Rightarrow> MULTREGTRecord list \<Rightarrow> MULTREGTRecord list \<times> error option" where
  "addKeywords fromString props [] recs = (recs, None)"
| "addKeywords fromString props (kw # rest) recs =
     (case addKeyword fromString props kw (getDefaultRegionKeyword props) recs of
        (recs', Some e) \<Rightarrow> (recs', Some e)
      | (recs', None) \<Rightarrow> addKeywords fromString props rest recs')"

text \<open>
  The first loop of the constructor fills \<^verbatim>\<open>searchPairs\<close>, a map keyed by the region
  pair alone. The map holds pointers into \<^verbatim>\<open>m_records\<close>, which no longer changes; the
  model stores the rules themselves.
\<close>

fun buildSearchPairs ::
  "Eclipse3DProperties \<Rightarrow> MULTREGTRecord list \<Rightarrow> MULTREGTSearchMap
     \<Rightarrow> error + MULTREGTSearchMap" where
  "buildSearchPairs props [] searchPairs = Inr searchPairs"
| "buildSearchPairs props (record # rest) searchPairs =
     (if hasDeckIntGridProperty props (region_name record)
      then (let srcRegion = src_value record; targetRegion = target_value record
            in if srcRegion \<noteq> targetRegion
               then buildSearchPairs props rest
                      (map_assign (srcRegion, targetRegion) record searchPairs)
               else buildSearchPairs props rest searchPairs)
      else Inl logic_error)"

text \<open>The second loop distributes \<^verbatim>\<open>searchPairs\<close>, in key order, over the region names.\<close>

fun buildSearchMap ::
  "MULTREGTSearchMap \<Rightarrow> (string, MULTREGTSearchMap) std_map
     \<Rightarrow> (string, MULTREGTSearchMap) std_map" where
  "buildSearchMap [] searchMap = searchMap"
| "buildSearchMap ((pair, record) # rest) searchMap =
     (let keyword = region_name record;
          searchMap1 = (if map_count searchMap keyword = 0
                        then map_assign keyword [] searchMap else searchMap);
          searchMap2 = map_assign keyword
                         (map_assign pair record (map_index [] searchMap1 keyword)) searchMap1
      in buildSearchMap rest searchMap2)"

definition MULTREGTScanner_new ::
  "(string \<Rightarrow> error + int) \<Rightarrow> Eclipse3DProperties \<Rightarrow> DeckKeyword list
     \<Rightarrow> error + MULTREGTScanner" where
  "MULTREGTScanner_new fromString e3DProps keywords =
     (case addKeywords fromString e3DProps keywords [] of
        (recs, Some e) \<Rightarrow> Inl e
      | (recs, None) \<Rightarrow>
          (case buildSearchPairs e3DProps recs [] of
             Inl e \<Rightarrow> Inl e
           | Inr searchPairs \<Rightarrow>
               Inr \<lparr>m_e3DProps = e3DProps, m_records = recs,
                    m_searchMap = buildSearchMap searchPairs []\<rparr>))"

section \<open>Lookup\<close>

text \<open>
  \<^verbatim>\<open>int i1 = globalIndex1 % region.getNX()\<close> narrows a \<^verbatim>\<open>size_t\<close> to a 32-bit
  \<^verbatim>\<open>int\<close>; the difference and \<^verbatim>\<open>std::abs\<close> are 32-bit as well, written here in
  two's complement.
\<close>

definition to_int32 :: "int \<Rightarrow> int" where
  "to_int32 x = signed_take_bit 31 x"

definition abs32 :: "int \<Rightarrow> int" where
  "abs32 x = to_int32 \<bar>x\<bar>"

definition sub32 :: "int \<Rightarrow> int \<Rightarrow> int" where
  "sub32 x y = to_int32 (x - y)"

text \<open>
  \<^verbatim>\<open>globalIndex % region.getNX()\<close> and \<^verbatim>\<open>globalIndex / region.getNX() % region.getNY()\<close>,
  stored in an \<^verbatim>\<open>int\<close>.
\<close>

definition coord_i :: "GridProperty \<Rightarrow> nat \<Rightarrow> int" where
  "coord_i region globalIndex = to_int32 (int (globalIndex mod getNX region))"

definition coord_j :: "GridProperty \<Rightarrow> nat \<Rightarrow> int" where
  "coord_j region globalIndex =
     to_int32 (int (globalIndex div getNX region mod getNY region))"

text \<open>The test both NNC branches of \<^verbatim>\<open>getRegionMultiplier\<close> make on the coordinates.\<close>

definition short_neighbour :: "int \<Rightarrow> int \<Rightarrow> int \<Rightarrow> int \<Rightarrow> bool" where
  "short_neighbour i1 i2 j1 j2 =
     ((abs32 (sub32 i1 i2) = 0 \<and> abs32 (sub32 j1 j2) = 1)
      \<or> (abs32 (sub32 i1 i2) = 1 \<and> abs32 (sub32 j1 j2) = 0))"

definition applyMultiplier :: "NNCBehaviourEnum \<Rightarrow> int \<Rightarrow> int \<Rightarrow> int \<Rightarrow> int \<Rightarrow> bool" where
  "applyMultiplier nnc i1 i2 j1 j2 =
     (if nnc = NNC then (if short_neighbour i1 i2 j1 j2 then False else True)
      else if nnc = NONNC then (if short_neighbour i1 i2 j1 j2 then True else False)
      else True)"

text \<open>\<^verbatim>\<open>map.count(pair) != 1 || !(map.at(pair)->directions & faceDir)\<close>\<close>

definition no_match :: "MULTREGTSearchMap \<Rightarrow> int \<times> int \<Rightarrow> int \<Rightarrow> bool" where
  "no_match searchMap pair faceDir =
     (map_count searchMap pair \<noteq> 1
      \<or> (case map_at searchMap pair of
            None \<Rightarrow> True
          | Some record \<Rightarrow> directions record AND faceDir = 0))"

text \<open>
  The key the loop body of \<^verbatim>\<open>getRegionMultiplier\<close> settles on: the forward pair, the
  swapped pair, or none (\<^verbatim>\<open>continue\<close>).
\<close>

definition select_pair :: "MULTREGTSearchMap \<Rightarrow> int \<Rightarrow> int \<Rightarrow> int \<Rightarrow> (int \<times> int) option" where
  "select_pair searchMap regionId1 regionId2 faceDir =
     (if no_match searchMap (regionId1, regionId2) faceDir
      then (if no_match searchMap (regionId2, regionId1) faceDir
            then None
            else Some (regionId2, regionId1))
      else Some (regionId1, regionId2))"

text \<open>
  One iteration of the loop over \<^verbatim>\<open>m_searchMap\<close>: \<open>Inr None\<close> goes on with the next
  region name, \<open>Inr (Some x)\<close> returns \<open>x\<close>.
\<close>

definition region_step ::
  "Eclipse3DProperties \<Rightarrow> string \<Rightarrow> MULTREGTSearchMap \<Rightarrow> nat \<Rightarrow> nat \<Rightarrow> int
     \<Rightarrow> error + real option" where
  "region_step e3DProps name searchMap globalIndex1 globalIndex2 faceDir =
     (let region = getIntGridProperty e3DProps name;
          regionId1 = iget region globalIndex1;
          regionId2 = iget region globalIndex2
      in case select_pair searchMap regionId1 regionId2 faceDir of
           None \<Rightarrow> Inr None
         | Some pair \<Rightarrow>
            (case map_at searchMap pair of
               None \<Rightarrow> Inl out_of_range
             | Some record \<Rightarrow>
                 if getNX region = 0 \<or> getNY region = 0 then Inl division_by_zero
                 else
                   (let i1 = coord_i region globalIndex1;
                        i2 = coord_i region globalIndex2;
                        j1 = coord_j region globalIndex1;
                        j2 = coord_j region globalIndex2
                    in if applyMultiplier (nnc_behaviour record) i1 i2 j1 j2
                       then Inr (Some (trans_mult record))
                       else Inr None)))"

fun scan_regions ::
  "Eclipse3DProperties \<Rightarrow> (string, MULTREGTSearchMap) std_map \<Rightarrow> nat \<Rightarrow> nat \<Rightarrow> int
     \<Rightarrow> error + real" where
  "scan_regions e3DProps [] globalIndex1 globalIndex2 faceDir = Inr 1"
| "scan_regions e3DProps ((name, searchMap) # rest) globalIndex1 globalIndex2 faceDir =
     (case region_step e3DProps name searchMap globalIndex1 globalIndex2 faceDir of
        Inl e \<Rightarrow> Inl e
      | Inr (Some x) \<Rightarrow> Inr x
      | Inr None \<Rightarrow> scan_regions e3DProps rest globalIndex1 globalIndex2 faceDir)"

definition getRegionMultiplier ::
  "MULTREGTScanner \<Rightarrow> nat \<Rightarrow> nat \<Rightarrow> int \<Rightarrow> error + real" where
  "getRegionMultiplier scanner globalIndex1 globalIndex2 faceDir =
     scan_regions (m_e3DProps scanner) (m_searchMap scanner) globalIndex1 globalIndex2 faceDir"

section \<open>Notions of the specification\<close>

text \<open>
  A \<^verbatim>\<open>std::map\<close> has one entry per key, in increasing key order. A rule matches a
  key and a face when the key is present and the direction mask of its rule includes
  the face.
\<close>

definition std_map_inv :: "('k::linorder, 'v) std_map \<Rightarrow> bool" where
  "std_map_inv m = sorted_wrt (<) (map fst m)"

definition rule_matches :: "MULTREGTSearchMap \<Rightarrow> int \<times> int \<Rightarrow> int \<Rightarrow> bool" where
  "rule_matches m pair faceDir =
     (case map_of m pair of None \<Rightarrow> False | Some r \<Rightarrow> directions r AND faceDir \<noteq> 0)"

text \<open>
  The grid coordinates of the specification, \<open>i = globalIndex mod NX\<close> and
  \<open>j = (globalIndex div NX) mod NY\<close>, as unbounded integers, and the short-neighbour
  test on them. The extents of a grid are positive and fit the \<^verbatim>\<open>int\<close> that the
  scanner stores coordinates in.
\<close>

definition grid_delta_i :: "GridProperty \<Rightarrow> nat \<Rightarrow> nat \<Rightarrow> int" where
  "grid_delta_i region g1 g2 = \<bar>int (g1 mod getNX region) - int (g2 mod getNX region)\<bar>"

definition grid_delta_j :: "GridProperty \<Rightarrow> nat \<Rightarrow> nat \<Rightarrow> int" where
  "grid_delta_j region g1 g2 =
     \<bar>int (g1 div getNX region mod getNY region) - int (g2 div getNX region mod getNY region)\<bar>"

definition spec_short :: "GridProperty \<Rightarrow> nat \<Rightarrow> nat \<Rightarrow> bool" where
  "spec_short region g1 g2 =
     ((grid_delta_i region g1 g2, grid_delta_j region g1 g2) = (0, 1)
      \<or> (grid_delta_i region g1 g2, grid_delta_j region g1 g2) = (1, 0))"

definition grid_ok :: "GridProperty \<Rightarrow> bool" where
  "grid_ok region =
     (0 < getNX region \<and> getNX region \<le> 2 ^ 31 \<and> 0 < getNY region \<and> getNY region \<le> 2 ^ 31)"

text \<open>
  The rule stored under a key is applicable to a query when the key is present, the
  direction mask includes the face and the NNC behaviour lets the multiplier through.
\<close>

definition applicable_in ::
  "Eclipse3DProperties \<Rightarrow> string \<Rightarrow> MULTREGTSearchMap \<Rightarrow> nat \<Rightarrow> nat \<Rightarrow> int
     \<Rightarrow> int \<times> int \<Rightarrow> bool" where
  "applicable_in props name m g1 g2 faceDir pair =
     (case map_of m pair of
        None \<Rightarrow> False
      | Some r \<Rightarrow>
          directions r AND faceDir \<noteq> 0
          \<and> applyMultiplier (nnc_behaviour r)
                (coord_i (getIntGridProperty props name) g1)
                (coord_i (getIntGridProperty props name) g2)
                (coord_j (getIntGridProperty props name) g1)
                (coord_j (getIntGridProperty props name) g2))"

text \<open>
  A record the validator rejects: explicit and equal region references, the behaviour
  \<^verbatim>\<open>NOAQUNNC\<close>, or a behaviour code that is none of the four.
\<close>

definition unsupported_record :: "DeckRecord \<Rightarrow> bool" where
  "unsupported_record r =
     ((\<not> defaultApplied (SRC_REGION r) \<and> \<not> defaultApplied (TARGET_REGION r)
        \<and> item_value (SRC_REGION r) = item_value (TARGET_REGION r))
      \<or> item_value (NNC_MULT r) = ''NOAQUNNC''
      \<or> item_value (NNC_MULT r) \<notin> set [''ALL'', ''NNC'', ''NONNC'', ''NOAQUNNC''])"



text \<open>
  The rules one record stands for: the Cartesian product of its source and target
  region sets, in generation order. A defaulted or negative reference stands for the
  regions \<^verbatim>\<open>getRegions\<close> returns for the categorization.
\<close>

definition expanded_rules ::
  "Eclipse3DProperties \<Rightarrow> DeckRecord \<Rightarrow> int \<Rightarrow> NNCBehaviourEnum \<Rightarrow> string
     \<Rightarrow> MULTREGTRecord list" where
  "expanded_rules props r dirs nnc rname =
     map (\<lambda>(s, t). \<lparr>src_value = s, target_value = t, trans_mult = item_value (TRAN_MULT r),
                      directions = dirs, nnc_behaviour = nnc, region_name = rname\<rparr>)
       (List.product
          (if defaultApplied (SRC_REGION r) \<or> item_value (SRC_REGION r) < 0
           then getRegions props rname else [item_value (SRC_REGION r)])
          (if defaultApplied (TARGET_REGION r) \<or> item_value (TARGET_REGION r) < 0
           then getRegions props rname else [item_value (TARGET_REGION r)]))"

text \<open>Every keyword occurrence of a deck passes validation.\<close>

definition all_supported :: "DeckKeyword list \<Rightarrow> string \<Rightarrow> bool" where
  "all_supported kws d = list_all (\<lambda>kw. assertKeywordSupported kw d = Inr ()) kws"

text \<open>
  The last rule of a list for an ordered region pair, whatever its categorization, and
  the entry of the index under a categorization name and a pair.
\<close>

fun last_rule_for :: "int \<times> int \<Rightarrow> MULTREGTRecord list \<Rightarrow> MULTREGTRecord option" where
  "last_rule_for pair [] = None"
| "last_rule_for pair (r # rest) =
     (case last_rule_for pair rest of
        Some x \<Rightarrow> Some x
      | None \<Rightarrow> if (src_value r, target_value r) = pair then Some r else None)"

definition index_entry ::
  "(string, MULTREGTSearchMap) std_map \<Rightarrow> string \<Rightarrow> int \<times> int \<Rightarrow> MULTREGTRecord option" where
  "index_entry sm name pair =
     (case map_at sm name of None \<Rightarrow> None | Some m \<Rightarrow> map_at m pair)"

text \<open>The index is a \<^verbatim>\<open>std::map\<close> of \<^verbatim>\<open>std::map\<close>s.\<close>

definition searchMap_inv :: "(string, MULTREGTSearchMap) std_map \<Rightarrow> bool" where
  "searchMap_inv sm = (std_map_inv sm \<and> list_all (\<lambda>(name, m). std_map_inv m) sm)"

text \<open>
  The lookup of the specification in one categorization. The selected rule is the rule
  under the forward key when that key matches the face, otherwise the rule under the
  swapped key when that one matches. Its factor is applied when its NNC behaviour lets
  it through: \<^verbatim>\<open>NNC\<close> on pairs that are not short neighbours, \<^verbatim>\<open>NONNC\<close> on short
  neighbours, any other behaviour always.
\<close>

definition selected_rule :: "MULTREGTSearchMap \<Rightarrow> int \<Rightarrow> int \<Rightarrow> int \<Rightarrow> MULTREGTRecord option" where
  "selected_rule m idA idB faceDir =
     (if rule_matches m (idA, idB) faceDir then map_of m (idA, idB)
      else if rule_matches m (idB, idA) faceDir then map_of m (idB, idA)
      else None)"

definition nnc_lets_through :: "NNCBehaviourEnum \<Rightarrow> bool \<Rightarrow> bool" where
  "nnc_lets_through nnc short =
     (if nnc = NNC then \<not> short else if nnc = NONNC then short else True)"

definition applied_factor ::
  "Eclipse3DProperties \<Rightarrow> string \<Rightarrow> MULTREGTSearchMap \<Rightarrow> nat \<Rightarrow> nat \<Rightarrow> int \<Rightarrow> real option" where
  "applied_factor props name m g1 g2 faceDir =
     (case selected_rule m (iget (getIntGridProperty props name) g1)
             (iget (getIntGridProperty props name) g2) faceDir of
        None \<Rightarrow> None
      | Some r \<Rightarrow>
          if nnc_lets_through (nnc_behaviour r) (spec_short (getIntGridProperty props name) g1 g2)
          then Some (trans_mult r) else None)"

text \<open>
  No categorization of a list applies a factor to the query, and all grid properties of a
  list have extents that are positive and fit an \<^verbatim>\<open>int\<close>.
\<close>

definition none_applied ::
  "Eclipse3DProperties \<Rightarrow> (string, MULTREGTSearchMap) std_map \<Rightarrow> nat \<Rightarrow> nat \<Rightarrow> int \<Rightarrow> bool" where
  "none_applied props sm g1 g2 faceDir =
     list_all (\<lambda>(name, m). applied_factor props name m g1 g2 faceDir = None) sm"

definition grids_ok :: "Eclipse3DProperties \<Rightarrow> (string, MULTREGTSearchMap) std_map \<Rightarrow> bool" where
  "grids_ok props sm = list_all (\<lambda>(name, m). grid_ok (getIntGridProperty props name)) sm"

section \<open>An example grid and deck\<close>

text \<open>
  A grid of 2 by 2 columns with the two region arrays \<^verbatim>\<open>FLUXNUM\<close> (regions 1 and 2)
  and \<^verbatim>\<open>MULTNUM\<close> (regions 3 and 4), and a direction parser with the face bits
  X+ = 1, X- = 2, Y+ = 4, Y- = 8, Z+ = 16, Z- = 32.
\<close>

definition demo_FromMULTREGTString :: "string \<Rightarrow> error + int" where
  "demo_FromMULTREGTString s =
     (if s = ''X'' then Inr 3 else if s = ''Y'' then Inr 12 else if s = ''Z'' then Inr 48
      else if s = ''XY'' then Inr 15 else if s = ''XYZ'' then Inr 63
      else Inl invalid_argument)"

definition demo_props :: Eclipse3DProperties where
  "demo_props =
     \<lparr>hasDeckIntGridProperty = (\<lambda>n. n = ''FLUXNUM'' \<or> n = ''MULTNUM''),
      getIntGridProperty = (\<lambda>n. if n = ''FLUXNUM''
          then \<lparr>iget = (\<lambda>c. if even c then 1 else 2), getNX = 2, getNY = 2\<rparr>
          else \<lparr>iget = (\<lambda>c. if even c then 3 else 4), getNX = 2, getNY = 2\<rparr>),
      getRegions = (\<lambda>n. if n = ''FLUXNUM'' then [1, 2]
                         else if n = ''MULTNUM'' then [3, 4] else []),
      getDefaultRegionKeyword = ''MULTNUM''\<rparr>"

definition demo_rule ::
  "int \<Rightarrow> int \<Rightarrow> real \<Rightarrow> int \<Rightarrow> NNCBehaviourEnum \<Rightarrow> string \<Rightarrow> MULTREGTRecord" where
  "demo_rule s t x d n r =
     \<lparr>src_value = s, target_value = t, trans_mult = x, directions = d,
      nnc_behaviour = n, region_name = r\<rparr>"

definition demo_map_nnc :: MULTREGTSearchMap where
  "demo_map_nnc = [((1, 2), demo_rule 1 2 (1/2) 63 NNC ''FLUXNUM'')]"

definition demo_map_all :: MULTREGTSearchMap where
  "demo_map_all = [((1, 2), demo_rule 1 2 (1/2) 63 ALL_nnc ''FLUXNUM'')]"

definition demo_map_both :: MULTREGTSearchMap where
  "demo_map_both = [((1, 2), demo_rule 1 2 (1/2) 63 NNC ''FLUXNUM''),
                    ((2, 1), demo_rule 2 1 7 63 ALL_nnc ''FLUXNUM'')]"

definition explicit_item :: "'a \<Rightarrow> 'a DeckItem" where
  "explicit_item v = \<lparr>item_value = v, defaultApplied = False\<rparr>"

definition defaulted_item :: "'a \<Rightarrow> 'a DeckItem" where
  "defaulted_item v = \<lparr>item_value = v, defaultApplied = True\<rparr>"

definition demo_record ::
  "int DeckItem \<Rightarrow> int DeckItem \<Rightarrow> real \<Rightarrow> string \<Rightarrow> string \<Rightarrow> string DeckItem
     \<Rightarrow> DeckRecord" where
  "demo_record s t x d n r =
     \<lparr>SRC_REGION = s, TARGET_REGION = t, TRAN_MULT = explicit_item x,
      DIRECTIONS = explicit_item d, NNC_MULT = explicit_item n, REGION_DEF = r\<rparr>"

text \<open>
  Decks: one whose second occurrence leaves the categorization out, one with the same
  pair under two categorizations (as in the comment above the constructor), one whose
  first categorization is suppressed on neighbouring cells, and one with a defaulted
  source region; with each the scanner the constructor builds from it.
\<close>

definition demo_deck_inherit :: "DeckKeyword list" where
  "demo_deck_inherit =
     [[demo_record (explicit_item 1) (explicit_item 2) 2 ''X'' ''ALL'' (explicit_item ''F'')],
      [demo_record (explicit_item 2) (explicit_item 1) 5 ''Y'' ''NNC'' (defaulted_item ''M'')]]"

definition demo_deck_overwrite :: "DeckKeyword list" where
  "demo_deck_overwrite =
     [[demo_record (explicit_item 3) (explicit_item 4) (3/4) ''Z'' ''ALL'' (explicit_item ''M''),
       demo_record (explicit_item 3) (explicit_item 4) (5/2) ''XY'' ''ALL'' (explicit_item ''F'')]]"

definition demo_scanner_overwrite :: MULTREGTScanner where
  "demo_scanner_overwrite =
     \<lparr>m_e3DProps = demo_props,
      m_records = [demo_rule 3 4 (3/4) 48 ALL_nnc ''MULTNUM'',
                   demo_rule 3 4 (5/2) 15 ALL_nnc ''FLUXNUM''],
      m_searchMap = [(''FLUXNUM'', [((3, 4), demo_rule 3 4 (5/2) 15 ALL_nnc ''FLUXNUM'')])]\<rparr>"

definition demo_deck_suppressed :: "DeckKeyword list" where
  "demo_deck_suppressed =
     [[demo_record (explicit_item 1) (explicit_item 2) (1/2) ''XYZ'' ''NNC'' (explicit_item ''F''),
       demo_record (explicit_item 3) (explicit_item 4) 3 ''XYZ'' ''ALL'' (explicit_item ''M'')]]"

definition demo_scanner_suppressed :: MULTREGTScanner where
  "demo_scanner_suppressed =
     \<lparr>m_e3DProps = demo_props,
      m_records = [demo_rule 1 2 (1/2) 63 NNC ''FLUXNUM'',
                   demo_rule 3 4 3 63 ALL_nnc ''MULTNUM''],
      m_searchMap = [(''FLUXNUM'', [((1, 2), demo_rule 1 2 (1/2) 63 NNC ''FLUXNUM'')]),
                     (''MULTNUM'', [((3, 4), demo_rule 3 4 3 63 ALL_nnc ''MULTNUM'')])]\<rparr>"

definition demo_keyword_wildcard :: DeckKeyword where
  "demo_keyword_wildcard =
     [demo_record (defaulted_item (- 1)) (explicit_item 4) (1/2) ''X'' ''ALL''
        (explicit_item ''M'')]"

definition demo_scanner_wildcard :: MULTREGTScanner where
  "demo_scanner_wildcard =
     \<lparr>m_e3DProps = demo_props,
      m_records = [demo_rule 3 4 (1/2) 3 ALL_nnc ''MULTNUM'',
                   demo_rule 4 4 (1/2) 3 ALL_nnc ''MULTNUM''],
      m_searchMap = [(''MULTNUM'', [((3, 4), demo_rule 3 4 (1/2) 3 ALL_nnc ''MULTNUM'')])]\<rparr>"

text \<open>
  A deck whose first categorization has a suppressed rule under the forward key and an
  applicable one under the swapped key, and a deck of two occurrences with conflicting
  rules for one pair, each with its scanner; then three single records.
\<close>

definition demo_deck_shadowed :: "DeckKeyword list" where
  "demo_deck_shadowed =
     [[demo_record (explicit_item 1) (explicit_item 2) (1/2) ''XYZ'' ''NNC'' (explicit_item ''F''),
       demo_record (explicit_item 2) (explicit_item 1) 7 ''XYZ'' ''ALL'' (explicit_item ''F''),
       demo_record (explicit_item 3) (explicit_item 4) 3 ''XYZ'' ''ALL'' (explicit_item ''M'')]]"

definition demo_scanner_shadowed :: MULTREGTScanner where
  "demo_scanner_shadowed =
     \<lparr>m_e3DProps = demo_props,
      m_records = [demo_rule 1 2 (1/2) 63 NNC ''FLUXNUM'',
                   demo_rule 2 1 7 63 ALL_nnc ''FLUXNUM'',
                   demo_rule 3 4 3 63 ALL_nnc ''MULTNUM''],
      m_searchMap = [(''FLUXNUM'', demo_map_both),
                     (''MULTNUM'', [((3, 4), demo_rule 3 4 3 63 ALL_nnc ''MULTNUM'')])]\<rparr>"

definition demo_deck_conflict :: "DeckKeyword list" where
  "demo_deck_conflict =
     [[demo_record (explicit_item 1) (explicit_item 2) (1/2) ''Z'' ''ALL'' (explicit_item ''F'')],
      [demo_record (explicit_item 1) (explicit_item 2) 7 ''X'' ''ALL'' (explicit_item ''F'')]]"

definition demo_scanner_conflict :: MULTREGTScanner where
  "demo_scanner_conflict =
     \<lparr>m_e3DProps = demo_props,
      m_records = [demo_rule 1 2 (1/2) 48 ALL_nnc ''FLUXNUM'',
                   demo_rule 1 2 7 3 ALL_nnc ''FLUXNUM''],
      m_searchMap = [(''FLUXNUM'', [((1, 2), demo_rule 1 2 7 3 ALL_nnc ''FLUXNUM'')])]\<rparr>"

definition demo_record_defaulted :: DeckRecord where
  "demo_record_defaulted =
     demo_record (explicit_item 3) (explicit_item 4) 2 ''X'' ''ALL'' (defaulted_item ''M'')"

definition demo_record_inheriting :: DeckRecord where
  "demo_record_inheriting =
     demo_record (explicit_item 2) (explicit_item 1) 5 ''Y'' ''NNC'' (defaulted_item ''M'')"

definition demo_record_explicit :: DeckRecord where
  "demo_record_explicit =
     demo_record (explicit_item 1) (explicit_item 2) 2 ''X'' ''ALL'' (explicit_item ''F'')"

section \<open>Unfolding sets for the examples\<close>

lemmas demo_record_defs =
  demo_record_defaulted_def demo_record_inheriting_def demo_record_explicit_def

lemmas spec_lookup_defs =
  applied_factor_def selected_rule_def rule_matches_def nnc_lets_through_def spec_short_def
  grid_delta_i_def grid_delta_j_def

lemmas demo_defs =
  demo_FromMULTREGTString_def demo_props_def demo_rule_def demo_record_def
  explicit_item_def defaulted_item_def

lemmas build_defs =
  MULTREGTScanner_new_def addKeyword_def assertRecordSupported_def addRecord_def
  NNCBehaviourFromString_def RegionNameFromDeckValue_def resolve_region_name_def
  region_set_def map_count_def map_index_def Let_def

lemmas lookup_defs =
  getRegionMultiplier_def region_step_def select_pair_def no_match_def map_count_def
  map_at_def applyMultiplier_def short_neighbour_def coord_i_def coord_j_def abs32_def
  sub32_def to_int32_def

section \<open>Facts about the map model\<close>

lemma map_of_map_assign: "map_of (map_assign k v m) = (map_of m)(k \<mapsto> v)"
  by (induction m) (auto simp: fun_eq_iff)

lemma keys_map_assign: "fst ` set (map_assign k v m) = insert k (fst ` set m)"
  by (induction m) auto

lemma std_map_inv_assign: "std_map_inv m \<Longrightarrow> std_map_inv (map_assign k v m)"
  unfolding std_map_inv_def
proof (induction m)
  case Nil
  then show ?case by simp
next
  case (Cons e es)
  have keys: "fst ` set (map_assign k v es) = insert k (fst ` set es)"
    by (rule keys_map_assign)
  from Cons show ?case
    by (auto simp: keys_map_assign image_iff)
qed

lemma std_map_inv_distinct: "std_map_inv m \<Longrightarrow> distinct (map fst m)"
  unfolding std_map_inv_def by (simp add: strict_sorted_iff)

lemma map_count_zero: "(map_count m k = 0) = (map_of m k = None)"
  by (induction m) (auto simp: map_count_def)

lemma map_count_distinct:
  "distinct (map fst m) \<Longrightarrow> map_count m k = (if map_of m k = None then 0 else 1)"
proof (induction m)
  case Nil
  then show ?case by (simp add: map_count_def)
next
  case (Cons e es)
  then have "map_of es (fst e) = None"
    by (cases e) (auto simp: map_of_eq_None_iff)
  with Cons show ?case
    by (cases e) (auto simp: map_count_def)
qed

lemma map_count_one_Some: "map_count m k = 1 \<Longrightarrow> \<exists>v. map_of m k = Some v"
  using map_count_zero [of m k] by (cases "map_of m k") auto

lemma no_match_iff:
  "std_map_inv m \<Longrightarrow> no_match m pair faceDir = (\<not> rule_matches m pair faceDir)"
  by (auto simp: no_match_def rule_matches_def map_at_def map_count_distinct
        std_map_inv_distinct split: option.splits)


lemma select_pair_spec:
  "std_map_inv m \<Longrightarrow>
   select_pair m a b f =
     (if rule_matches m (a, b) f then Some (a, b)
      else if rule_matches m (b, a) f then Some (b, a) else None)"
  by (simp add: select_pair_def no_match_iff)

section \<open>Facts about the coordinates\<close>

lemma to_int32_id: "0 \<le> x \<Longrightarrow> x < 2 ^ 31 \<Longrightarrow> to_int32 x = x"
  unfolding to_int32_def by (rule signed_take_bit_int_eq_self) simp_all

lemma to_int32_id': "- (2 ^ 31) \<le> x \<Longrightarrow> x < 2 ^ 31 \<Longrightarrow> to_int32 x = x"
  unfolding to_int32_def by (rule signed_take_bit_int_eq_self) simp_all

lemma abs32_sub32:
  assumes "0 \<le> x" "x < 2 ^ 31" "0 \<le> y" "y < 2 ^ 31"
  shows "abs32 (sub32 x y) = \<bar>x - y\<bar>"
proof -
  have "sub32 x y = x - y"
    unfolding sub32_def using assms by (intro to_int32_id') simp_all
  moreover have "to_int32 \<bar>x - y\<bar> = \<bar>x - y\<bar>"
    using assms by (intro to_int32_id) simp_all
  ultimately show ?thesis by (simp add: abs32_def)
qed

lemma int_below_2p31: "(n::nat) < m \<Longrightarrow> m \<le> 2 ^ 31 \<Longrightarrow> int n < 2 ^ 31"
proof -
  assume "n < m" "m \<le> 2 ^ 31"
  then have "n < 2 ^ 31" by (rule order_less_le_trans)
  then have "int n < int (2 ^ 31)" by (simp only: of_nat_less_iff)
  then show ?thesis by simp
qed

lemma coord_i_exact:
  assumes "0 < getNX region" "getNX region \<le> 2 ^ 31"
  shows "coord_i region g = int (g mod getNX region)"
proof -
  have "g mod getNX region < getNX region" using assms by simp
  then have "int (g mod getNX region) < 2 ^ 31" using assms(2) by (rule int_below_2p31)
  then show ?thesis unfolding coord_i_def by (intro to_int32_id) simp_all
qed

lemma coord_j_exact:
  assumes "0 < getNY region" "getNY region \<le> 2 ^ 31"
  shows "coord_j region g = int (g div getNX region mod getNY region)"
proof -
  have "g div getNX region mod getNY region < getNY region" using assms by simp
  then have "int (g div getNX region mod getNY region) < 2 ^ 31"
    using assms(2) by (rule int_below_2p31)
  then show ?thesis unfolding coord_j_def by (intro to_int32_id) simp_all
qed

lemma short_neighbour_spec:
  assumes "grid_ok region"
  shows "short_neighbour (coord_i region g1) (coord_i region g2)
           (coord_j region g1) (coord_j region g2) = spec_short region g1 g2"
proof -
  have nx: "0 < getNX region" "getNX region \<le> 2 ^ 31"
    and ny: "0 < getNY region" "getNY region \<le> 2 ^ 31"
    using assms by (simp_all add: grid_ok_def)
  have bi: "int (g mod getNX region) < 2 ^ 31" for g
  proof -
    have "g mod getNX region < getNX region" using nx by simp
    then show ?thesis using nx(2) by (rule int_below_2p31)
  qed
  have bj: "int (g div getNX region mod getNY region) < 2 ^ 31" for g
  proof -
    have "g div getNX region mod getNY region < getNY region" using ny by simp
    then show ?thesis using ny(2) by (rule int_below_2p31)
  qed
  have di: "abs32 (sub32 (coord_i region g1) (coord_i region g2)) = grid_delta_i region g1 g2"
    unfolding coord_i_exact [OF nx] grid_delta_i_def
    by (rule abs32_sub32) (use bi [of g1] bi [of g2] in simp_all)
  have dj: "abs32 (sub32 (coord_j region g1) (coord_j region g2)) = grid_delta_j region g1 g2"
    unfolding coord_j_exact [OF ny] grid_delta_j_def
    by (rule abs32_sub32) (use bj [of g1] bj [of g2] in simp_all)
  show ?thesis
    by (simp add: short_neighbour_def spec_short_def di dj)
qed

section \<open>Facts about the loop body of the lookup\<close>

lemma region_step_selected:
  assumes "select_pair m (iget (getIntGridProperty props name) g1)
             (iget (getIntGridProperty props name) g2) f = Some p"
    and "map_at m p = Some r"
    and "0 < getNX (getIntGridProperty props name)" "0 < getNY (getIntGridProperty props name)"
  shows "region_step props name m g1 g2 f =
     (if applyMultiplier (nnc_behaviour r)
           (coord_i (getIntGridProperty props name) g1)
           (coord_i (getIntGridProperty props name) g2)
           (coord_j (getIntGridProperty props name) g1)
           (coord_j (getIntGridProperty props name) g2)
      then Inr (Some (trans_mult r)) else Inr None)"
  using assms by (simp add: region_step_def Let_def)

lemma region_step_unselected:
  assumes "select_pair m (iget (getIntGridProperty props name) g1)
             (iget (getIntGridProperty props name) g2) f = None"
  shows "region_step props name m g1 g2 f = Inr None"
  using assms by (simp add: region_step_def Let_def)






section \<open>Facts about validation\<close>

lemma assertRecordSupported_error:
  "assertRecordSupported r = Inl e \<Longrightarrow> e = invalid_argument"
  by (auto simp: assertRecordSupported_def NNCBehaviourFromString_def Let_def
        split: if_splits sum.splits)

lemma assertRecordSupported_unsupported:
  "(assertRecordSupported r = Inl invalid_argument) = unsupported_record r"
  by (auto simp: assertRecordSupported_def NNCBehaviourFromString_def Let_def
        unsupported_record_def split: if_splits sum.splits)

lemma assertKeywordSupported_error:
  "assertKeywordSupported kw d = Inl e \<Longrightarrow> e = invalid_argument"
  by (induction kw) (auto split: sum.splits dest: assertRecordSupported_error)

lemma assertKeywordSupported_unsupported:
  "(assertKeywordSupported kw d = Inl invalid_argument) = (\<exists>r \<in> set kw. unsupported_record r)"
proof (induction kw)
  case Nil
  then show ?case by simp
next
  case (Cons r kw)
  show ?case
  proof (cases "assertRecordSupported r")
    case (Inl e)
    then have "e = invalid_argument" by (rule assertRecordSupported_error)
    with Inl show ?thesis
      using assertRecordSupported_unsupported [of r] by simp
  next
    case (Inr u)
    then have "\<not> unsupported_record r"
      using assertRecordSupported_unsupported [of r] by simp
    with Inr Cons show ?thesis by simp
  qed
qed

section \<open>Facts about expansion\<close>

lemma push_targets_eq:
  "push_targets s ts tm dirs nnc rname recs =
     recs @ map (\<lambda>t. \<lparr>src_value = s, target_value = t, trans_mult = tm,
                        directions = dirs, nnc_behaviour = nnc, region_name = rname\<rparr>) ts"
  by (induction ts arbitrary: recs) simp_all

lemma push_sources_eq:
  "push_sources ss ts tm dirs nnc rname recs =
     recs @ map (\<lambda>(s, t). \<lparr>src_value = s, target_value = t, trans_mult = tm,
                        directions = dirs, nnc_behaviour = nnc, region_name = rname\<rparr>)
              (List.product ss ts)"
  by (induction ss arbitrary: recs) (simp_all add: push_targets_eq comp_def)

lemma addRecord_eq:
  assumes "fromString (item_value (DIRECTIONS r)) = Inr dirs"
    and "NNCBehaviourFromString (item_value (NNC_MULT r)) = Inr nnc"
    and "resolve_region_name r defaultRegion recs = Inr rname"
  shows "addRecord fromString props defaultRegion r recs =
           (recs @ expanded_rules props r dirs nnc rname, None)"
  using assms
  by (simp add: addRecord_def push_sources_eq expanded_rules_def region_set_def)

lemma addRecord_cases:
  assumes "addRecord fromString props defaultRegion r recs = (recs', None)"
  shows "\<exists>dirs nnc rname. fromString (item_value (DIRECTIONS r)) = Inr dirs
           \<and> NNCBehaviourFromString (item_value (NNC_MULT r)) = Inr nnc
           \<and> resolve_region_name r defaultRegion recs = Inr rname
           \<and> recs' = recs @ expanded_rules props r dirs nnc rname"
  using assms
  by (auto simp: addRecord_def push_sources_eq expanded_rules_def region_set_def
        split: sum.splits)

lemma expanded_rules_region_name:
  "x \<in> set (expanded_rules props r dirs nnc rname) \<Longrightarrow> region_name x = rname"
  by (auto simp: expanded_rules_def)

lemma addRecords_append:
  "addRecords fromString props d (xs @ ys) recs =
     (case addRecords fromString props d xs recs of
        (recs', Some e) \<Rightarrow> (recs', Some e)
      | (recs', None) \<Rightarrow> addRecords fromString props d ys recs')"
  by (induction xs arbitrary: recs) (auto split: prod.splits option.splits)

lemma addKeywords_concat:
  "all_supported kws (getDefaultRegionKeyword props) \<Longrightarrow>
   addKeywords fromString props kws recs =
     addRecords fromString props (getDefaultRegionKeyword props) (concat kws) recs"
proof (induction kws arbitrary: recs)
  case Nil
  then show ?case by simp
next
  case (Cons kw kws)
  then have ok: "assertKeywordSupported kw (getDefaultRegionKeyword props) = Inr ()"
    and rest: "all_supported kws (getDefaultRegionKeyword props)"
    by (simp_all add: all_supported_def)
  show ?case
    by (simp add: addKeyword_def ok addRecords_append Cons.IH [OF rest]
          split: prod.splits option.splits)
qed

section \<open>Facts about the index builder\<close>

lemma set_map_assign: "set (map_assign k v m) \<subseteq> insert (k, v) (set m)"
  by (induction m) auto

lemma map_at_assign: "map_at (map_assign k v m) = (map_at m)(k \<mapsto> v)"
  by (simp add: map_at_def map_of_map_assign fun_eq_iff)

lemma last_rule_for_key:
  "last_rule_for pair recs = Some r \<Longrightarrow> (src_value r, target_value r) = pair \<and> r \<in> set recs"
  by (induction recs) (auto split: option.splits if_splits)

lemma buildSearchPairs_map_of:
  "buildSearchPairs props recs sp = Inr sp' \<Longrightarrow>
   map_of sp' pair =
     (case last_rule_for pair recs of
        None \<Rightarrow> map_of sp pair
      | Some r \<Rightarrow> if fst pair \<noteq> snd pair then Some r else map_of sp pair)"
proof (induction recs arbitrary: sp)
  case Nil
  then show ?case by simp
next
  case (Cons r recs)
  from Cons.prems have known: "hasDeckIntGridProperty props (region_name r)"
    by (simp split: if_splits)
  show ?case
  proof (cases "src_value r = target_value r")
    case True
    with Cons.prems known have "buildSearchPairs props recs sp = Inr sp'" by simp
    from Cons.IH [OF this] True show ?thesis
      by (auto split: option.splits)
  next
    case False
    with Cons.prems known
    have "buildSearchPairs props recs
            (map_assign (src_value r, target_value r) r sp) = Inr sp'"
      by (simp add: Let_def)
    from Cons.IH [OF this] False show ?thesis
      by (auto simp: map_of_map_assign split: option.splits)
  qed
qed

lemma buildSearchPairs_inv:
  "buildSearchPairs props recs sp = Inr sp' \<Longrightarrow> std_map_inv sp \<Longrightarrow> std_map_inv sp'"
proof (induction recs arbitrary: sp)
  case Nil
  then show ?case by simp
next
  case (Cons r recs)
  then show ?case
    by (auto simp: Let_def std_map_inv_assign split: if_splits)
qed

lemma buildSearchPairs_known:
  "buildSearchPairs props recs sp = Inr sp' \<Longrightarrow>
   \<forall>r \<in> set recs. hasDeckIntGridProperty props (region_name r)"
  by (induction recs arbitrary: sp) (auto simp: Let_def split: if_splits)

lemma index_entry_step:
  "index_entry
     (map_assign keyword
        (map_assign pair record
           (map_index [] (if map_count sm keyword = 0 then map_assign keyword [] sm else sm)
              keyword))
        (if map_count sm keyword = 0 then map_assign keyword [] sm else sm)) name p
   = (if name = keyword \<and> p = pair then Some record else index_entry sm name p)"
  by (auto simp: index_entry_def map_at_assign map_at_def map_index_def map_of_map_assign
        map_count_zero split: option.splits)

lemma buildSearchMap_entry:
  "distinct (map fst sp) \<Longrightarrow>
   index_entry (buildSearchMap sp sm) name p =
     (case map_of sp p of
        None \<Rightarrow> index_entry sm name p
      | Some r \<Rightarrow> if region_name r = name then Some r else index_entry sm name p)"
proof (induction sp arbitrary: sm)
  case Nil
  then show ?case by simp
next
  case (Cons e sp)
  obtain pair rule where e: "e = (pair, rule)" by (cases e)
  from Cons.prems e have d: "distinct (map fst sp)" and fresh: "map_of sp pair = None"
    by (auto simp: map_of_eq_None_iff)
  have step: "buildSearchMap (e # sp) sm =
      buildSearchMap sp
        (map_assign (region_name rule)
           (map_assign pair rule
              (map_index []
                 (if map_count sm (region_name rule) = 0
                  then map_assign (region_name rule) [] sm else sm)
                 (region_name rule)))
           (if map_count sm (region_name rule) = 0
            then map_assign (region_name rule) [] sm else sm))"
    by (simp add: e Let_def)
  show ?case
    unfolding step Cons.IH [OF d] index_entry_step
    using fresh by (auto simp: e split: option.splits)
qed

lemma index_entry_built:
  assumes "MULTREGTScanner_new fromString props kws = Inr sc"
  shows "index_entry (m_searchMap sc) name (s, t) =
           (case last_rule_for (s, t) (m_records sc) of
              None \<Rightarrow> None
            | Some r \<Rightarrow> if s \<noteq> t \<and> region_name r = name then Some r else None)"
proof -
  from assms obtain recs sp where recs: "addKeywords fromString props kws [] = (recs, None)"
    and sp: "buildSearchPairs props recs [] = Inr sp"
    and sc: "sc = \<lparr>m_e3DProps = props, m_records = recs, m_searchMap = buildSearchMap sp []\<rparr>"
    by (auto simp: MULTREGTScanner_new_def split: prod.splits option.splits sum.splits)
  have inv: "std_map_inv sp"
    using buildSearchPairs_inv [OF sp] by (simp add: std_map_inv_def)
  have e: "index_entry [] name p = None" for p
    by (simp add: index_entry_def map_at_def)
  show ?thesis
    unfolding sc
    by (simp add: buildSearchMap_entry [OF std_map_inv_distinct [OF inv]] e
          buildSearchPairs_map_of [OF sp] split: option.splits)
qed

lemma buildSearchMap_inv:
  "searchMap_inv sm \<Longrightarrow> std_map_inv sp \<Longrightarrow> searchMap_inv (buildSearchMap sp sm)"
proof (induction sp arbitrary: sm)
  case Nil
  then show ?case by simp
next
  case (Cons e sp)
  obtain pair rule where e: "e = (pair, rule)" by (cases e)
  let ?kw = "region_name rule"
  let ?sm1 = "if map_count sm ?kw = 0 then map_assign ?kw [] sm else sm"
  let ?inner = "map_assign pair rule (map_index [] ?sm1 ?kw)"
  let ?sm2 = "map_assign ?kw ?inner ?sm1"
  have step: "buildSearchMap (e # sp) sm = buildSearchMap sp ?sm2"
    by (simp add: e Let_def)
  have inners: "std_map_inv m" if "(n, m) \<in> set sm" for n m
    using Cons.prems(1) that by (auto simp: searchMap_inv_def list_all_iff)
  have inv1: "searchMap_inv ?sm1"
  proof -
    have "std_map_inv m" if "(n, m) \<in> set (map_assign ?kw [] sm)" for n m
      using that set_map_assign [of ?kw "[]" sm] inners
      by (auto simp: std_map_inv_def)
    then have "searchMap_inv (map_assign ?kw [] sm)"
      using Cons.prems(1)
      by (auto simp: searchMap_inv_def list_all_iff std_map_inv_assign)
    with Cons.prems(1) show ?thesis by simp
  qed
  have old: "std_map_inv (map_index [] ?sm1 ?kw)"
  proof (cases "map_of ?sm1 ?kw")
    case None
    then show ?thesis by (simp add: map_index_def std_map_inv_def)
  next
    case (Some m)
    then have "(?kw, m) \<in> set ?sm1" by (rule map_of_SomeD)
    with inv1 have "std_map_inv m" by (auto simp: searchMap_inv_def list_all_iff)
    with Some show ?thesis by (simp add: map_index_def)
  qed
  have inv2: "searchMap_inv ?sm2"
  proof -
    have "std_map_inv m" if "(n, m) \<in> set ?sm2" for n m
    proof -
      from that set_map_assign [of ?kw ?inner ?sm1]
      have "(n, m) = (?kw, ?inner) \<or> (n, m) \<in> set ?sm1" by auto
      then show ?thesis
        using inv1 old by (auto simp: searchMap_inv_def list_all_iff std_map_inv_assign)
    qed
    moreover have "std_map_inv ?sm2"
      using inv1 by (simp add: searchMap_inv_def std_map_inv_assign)
    ultimately show ?thesis by (auto simp: searchMap_inv_def list_all_iff)
  qed
  from Cons.prems(2) have "std_map_inv sp"
    by (simp add: std_map_inv_def)
  from Cons.IH [OF inv2 this] show ?case by (simp only: step)
qed

lemma scanner_searchMap_inv:
  assumes "MULTREGTScanner_new fromString props kws = Inr sc"
  shows "searchMap_inv (m_searchMap sc)"
proof -
  from assms obtain recs sp where sp: "buildSearchPairs props recs [] = Inr sp"
    and sc: "sc = \<lparr>m_e3DProps = props, m_records = recs, m_searchMap = buildSearchMap sp []\<rparr>"
    by (auto simp: MULTREGTScanner_new_def split: prod.splits option.splits sum.splits)
  have "std_map_inv sp"
    using buildSearchPairs_inv [OF sp] by (simp add: std_map_inv_def)
  moreover have "searchMap_inv []" by (simp add: searchMap_inv_def std_map_inv_def)
  ultimately show ?thesis unfolding sc by (simp add: buildSearchMap_inv)
qed

lemma assertKeywordSupported_ok:
  "assertKeywordSupported kw d = Inr () \<Longrightarrow> r \<in> set kw \<Longrightarrow> \<not> unsupported_record r"
  using assertKeywordSupported_unsupported [of kw d] by auto

section \<open>The lookup against the specification\<close>

lemma region_step_spec:
  assumes "std_map_inv m" and "grid_ok (getIntGridProperty props name)"
  shows "region_step props name m g1 g2 f = Inr (applied_factor props name m g1 g2 f)"
proof -
  let ?region = "getIntGridProperty props name"
  let ?a = "iget ?region g1" and ?b = "iget ?region g2"
  have pos: "0 < getNX ?region" "0 < getNY ?region"
    using assms(2) by (simp_all add: grid_ok_def)
  have sel: "select_pair m ?a ?b f =
           (if rule_matches m (?a, ?b) f then Some (?a, ?b)
            else if rule_matches m (?b, ?a) f then Some (?b, ?a) else None)"
    by (rule select_pair_spec [OF assms(1)])
  have app: "applyMultiplier nnc (coord_i ?region g1) (coord_i ?region g2)
                 (coord_j ?region g1) (coord_j ?region g2)
               = nnc_lets_through nnc (spec_short ?region g1 g2)" for nnc
    by (simp add: applyMultiplier_def nnc_lets_through_def short_neighbour_spec [OF assms(2)])
  have at: "region_step props name m g1 g2 f =
              Inr (if nnc_lets_through (nnc_behaviour r) (spec_short ?region g1 g2)
                   then Some (trans_mult r) else None)"
    if "select_pair m ?a ?b f = Some p" "map_of m p = Some r" for p r
  proof -
    from that(2) have "map_at m p = Some r" by (simp add: map_at_def)
    from region_step_selected [OF that(1) this pos] show ?thesis
      by (simp add: app)
  qed
  show ?thesis
  proof (cases "rule_matches m (?a, ?b) f")
    case True
    then obtain r where r: "map_of m (?a, ?b) = Some r"
      by (auto simp: rule_matches_def split: option.splits)
    from True sel have "select_pair m ?a ?b f = Some (?a, ?b)" by simp
    from at [OF this r] True r show ?thesis
      by (simp add: applied_factor_def selected_rule_def)
  next
    case False
    show ?thesis
    proof (cases "rule_matches m (?b, ?a) f")
      case True
      then obtain r where r: "map_of m (?b, ?a) = Some r"
        by (auto simp: rule_matches_def split: option.splits)
      from True False sel have "select_pair m ?a ?b f = Some (?b, ?a)" by simp
      from at [OF this r] True False r show ?thesis
        by (simp add: applied_factor_def selected_rule_def)
    next
      case nb: False
      from False nb sel have "select_pair m ?a ?b f = None" by simp
      from region_step_unselected [OF this] False nb show ?thesis
        by (simp add: applied_factor_def selected_rule_def)
    qed
  qed
qed

lemma scan_regions_first_spec:
  assumes "list_all (\<lambda>(n, m'). std_map_inv m') (pre @ [(name, m)])"
    and "grids_ok props (pre @ [(name, m)])"
    and "none_applied props pre g1 g2 f"
    and "applied_factor props name m g1 g2 f = Some x"
  shows "scan_regions props (pre @ (name, m) # post) g1 g2 f = Inr x"
  using assms
proof (induction pre)
  case Nil
  then have "region_step props name m g1 g2 f = Inr (Some x)"
    by (simp add: region_step_spec grids_ok_def)
  then show ?case by simp
next
  case (Cons e pre)
  obtain n m' where e: "e = (n, m')" by (cases e)
  from Cons.prems e have "std_map_inv m'" "grid_ok (getIntGridProperty props n)"
      "applied_factor props n m' g1 g2 f = None"
    by (simp_all add: grids_ok_def none_applied_def)
  then have step: "region_step props n m' g1 g2 f = Inr None"
    by (simp add: region_step_spec)
  from Cons.prems e have "scan_regions props (pre @ (name, m) # post) g1 g2 f = Inr x"
    by (intro Cons.IH) (simp_all add: grids_ok_def none_applied_def)
  with step e show ?case by simp
qed

lemma searchMap_inv_inner:
  "searchMap_inv (pre @ (name, m) # post) \<Longrightarrow> list_all (\<lambda>(n, m'). std_map_inv m') (pre @ [(name, m)])"
  by (simp add: searchMap_inv_def)

lemma scanner_props:
  "MULTREGTScanner_new fromString props kws = Inr sc \<Longrightarrow> m_e3DProps sc = props"
  by (auto simp: MULTREGTScanner_new_def split: prod.splits option.splits sum.splits)

section \<open>Claims\<close>

text \<open>
  Claim C1 fails as stated. As in the comment above the constructor, the deck gives one
  pair, \<open>(3, 4)\<close>, first under \<^verbatim>\<open>MULTNUM\<close>, then under \<^verbatim>\<open>FLUXNUM\<close>: the index keeps
  the \<^verbatim>\<open>FLUXNUM\<close> rule only, and a query on two cells of \<^verbatim>\<open>MULTNUM\<close> regions 3 and
  4 returns 1 instead of the \<^verbatim>\<open>MULTNUM\<close> factor.
\<close>

theorem C1_counterexample:
  "MULTREGTScanner_new demo_FromMULTREGTString demo_props demo_deck_overwrite
     = Inr demo_scanner_overwrite
   \<and> index_entry (m_searchMap demo_scanner_overwrite) ''MULTNUM'' (3, 4) = None
   \<and> index_entry (m_searchMap demo_scanner_overwrite) ''FLUXNUM'' (3, 4)
       = Some (demo_rule 3 4 (5/2) 15 ALL_nnc ''FLUXNUM'')
   \<and> getRegionMultiplier demo_scanner_overwrite 0 1 16 = Inr 1"
proof -
  have a: "MULTREGTScanner_new demo_FromMULTREGTString demo_props demo_deck_overwrite
     = Inr demo_scanner_overwrite"
    by (simp add: demo_deck_overwrite_def demo_scanner_overwrite_def build_defs demo_defs)
  have b: "index_entry (m_searchMap demo_scanner_overwrite) ''MULTNUM'' (3, 4) = None"
    by (simp add: demo_scanner_overwrite_def index_entry_def map_at_def)
  have c: "index_entry (m_searchMap demo_scanner_overwrite) ''FLUXNUM'' (3, 4)
       = Some (demo_rule 3 4 (5/2) 15 ALL_nnc ''FLUXNUM'')"
    by (simp add: demo_scanner_overwrite_def index_entry_def map_at_def)
  have d: "getRegionMultiplier demo_scanner_overwrite 0 1 16 = Inr 1"
    by (simp add: demo_scanner_overwrite_def lookup_defs demo_defs)
  show ?thesis using a b c d by simp
qed

text \<open>
  Claim C1, amended. The index of a built scanner holds, for each ordered region pair
  with distinct components, exactly the last rule generated for that pair in any
  categorization, filed under the categorization of that rule; it has no other entry.
  So of two conflicting rules for one pair the index reflects the later one only, and the
  lookup matches the factor and the direction mask of the later rule: the match on the
  forward key is decided by its mask, the iteration of its categorization returns its
  factor when its NNC behaviour lets it through, and so does the whole lookup when no
  earlier categorization applies a factor.
\<close>

theorem C1_last_rule_wins:
  assumes "MULTREGTScanner_new fromString props kws = Inr sc"
  shows "index_entry (m_searchMap sc) name (s, t) =
           (case last_rule_for (s, t) (m_records sc) of
              None \<Rightarrow> None
            | Some r \<Rightarrow> if s \<noteq> t \<and> region_name r = name then Some r else None)
       \<and> (m_searchMap sc = pre @ (name, m) # post
            \<and> last_rule_for (iget (getIntGridProperty props name) g1,
                               iget (getIntGridProperty props name) g2) (m_records sc) = Some r
            \<and> region_name r = name
            \<and> iget (getIntGridProperty props name) g1 \<noteq> iget (getIntGridProperty props name) g2
            \<and> grid_ok (getIntGridProperty props name)
          \<longrightarrow> rule_matches m (iget (getIntGridProperty props name) g1,
                                 iget (getIntGridProperty props name) g2) f
                = (directions r AND f \<noteq> 0)
              \<and> (directions r AND f \<noteq> 0
                   \<longrightarrow> region_step props name m g1 g2 f
                       = Inr (if nnc_lets_through (nnc_behaviour r)
                                   (spec_short (getIntGridProperty props name) g1 g2)
                              then Some (trans_mult r) else None))
              \<and> (directions r AND f \<noteq> 0
                   \<and> nnc_lets_through (nnc_behaviour r)
                         (spec_short (getIntGridProperty props name) g1 g2)
                   \<and> grids_ok props pre \<and> none_applied props pre g1 g2 f
                   \<longrightarrow> getRegionMultiplier sc g1 g2 f = Inr (trans_mult r)))"
proof -
  let ?region = "getIntGridProperty props name"
  let ?a = "iget ?region g1" and ?b = "iget ?region g2"
  have props: "m_e3DProps sc = props" by (rule scanner_props [OF assms])
  have inv: "searchMap_inv (m_searchMap sc)" by (rule scanner_searchMap_inv [OF assms])
  have lookup: "rule_matches m (?a, ?b) f = (directions r AND f \<noteq> 0)
              \<and> (directions r AND f \<noteq> 0
                   \<longrightarrow> region_step props name m g1 g2 f
                       = Inr (if nnc_lets_through (nnc_behaviour r) (spec_short ?region g1 g2)
                              then Some (trans_mult r) else None))
              \<and> (directions r AND f \<noteq> 0
                   \<and> nnc_lets_through (nnc_behaviour r) (spec_short ?region g1 g2)
                   \<and> grids_ok props pre \<and> none_applied props pre g1 g2 f
                   \<longrightarrow> getRegionMultiplier sc g1 g2 f = Inr (trans_mult r))"
    if sm: "m_searchMap sc = pre @ (name, m) # post"
      and last: "last_rule_for (?a, ?b) (m_records sc) = Some r"
      and rn: "region_name r = name" and ne: "?a \<noteq> ?b" and ok: "grid_ok ?region"
  proof -
    have "distinct (map fst (m_searchMap sc))"
      using inv by (simp add: searchMap_inv_def std_map_inv_distinct)
    moreover have "(name, m) \<in> set (m_searchMap sc)" by (simp add: sm)
    ultimately have outer: "map_of (m_searchMap sc) name = Some m"
      by (rule map_of_is_SomeI)
    have "index_entry (m_searchMap sc) name (?a, ?b) = Some r"
      using index_entry_built [OF assms, of name ?a ?b] last rn ne by simp
    with outer have entry: "map_of m (?a, ?b) = Some r"
      by (simp add: index_entry_def map_at_def)
    have inner: "list_all (\<lambda>(n, m'). std_map_inv m') (pre @ [(name, m)])"
      using inv unfolding sm by (rule searchMap_inv_inner)
    then have minv: "std_map_inv m" by simp
    have m1: "rule_matches m (?a, ?b) f = (directions r AND f \<noteq> 0)"
      by (simp add: rule_matches_def entry)
    have af: "applied_factor props name m g1 g2 f =
               (if nnc_lets_through (nnc_behaviour r) (spec_short ?region g1 g2)
                then Some (trans_mult r) else None)" if "directions r AND f \<noteq> 0"
      using that by (simp add: applied_factor_def selected_rule_def m1 entry)
    have m2: "region_step props name m g1 g2 f
                = Inr (if nnc_lets_through (nnc_behaviour r) (spec_short ?region g1 g2)
                       then Some (trans_mult r) else None)" if "directions r AND f \<noteq> 0"
      by (simp add: region_step_spec [OF minv ok] af [OF that])
    have m3: "getRegionMultiplier sc g1 g2 f = Inr (trans_mult r)"
      if d: "directions r AND f \<noteq> 0"
        and l: "nnc_lets_through (nnc_behaviour r) (spec_short ?region g1 g2)"
        and g: "grids_ok props pre" and n: "none_applied props pre g1 g2 f"
    proof -
      have g': "grids_ok props (pre @ [(name, m)])"
        using g ok by (simp add: grids_ok_def)
      have "applied_factor props name m g1 g2 f = Some (trans_mult r)"
        using af [OF d] l by simp
      from scan_regions_first_spec [OF inner g' n this] show ?thesis
        by (simp add: getRegionMultiplier_def props sm)
    qed
    show ?thesis using m1 m2 m3 by blast
  qed
  have index: "index_entry (m_searchMap sc) name (s, t) =
           (case last_rule_for (s, t) (m_records sc) of
              None \<Rightarrow> None
            | Some r \<Rightarrow> if s \<noteq> t \<and> region_name r = name then Some r else None)"
    using assms by (rule index_entry_built)
  show ?thesis
    by (rule conjI [OF index], rule impI, elim conjE, rule lookup, assumption+)
qed

theorem C1_last_rule_wins_witness:
  "MULTREGTScanner_new demo_FromMULTREGTString demo_props demo_deck_conflict
     = Inr demo_scanner_conflict
   \<and> m_searchMap demo_scanner_conflict
       = [] @ (''FLUXNUM'', [((1, 2), demo_rule 1 2 7 3 ALL_nnc ''FLUXNUM'')]) # []
   \<and> m_records demo_scanner_conflict
       = [demo_rule 1 2 (1/2) 48 ALL_nnc ''FLUXNUM'', demo_rule 1 2 7 3 ALL_nnc ''FLUXNUM'']
   \<and> last_rule_for (iget (getIntGridProperty demo_props ''FLUXNUM'') 0,
                      iget (getIntGridProperty demo_props ''FLUXNUM'') 1)
         (m_records demo_scanner_conflict) = Some (demo_rule 1 2 7 3 ALL_nnc ''FLUXNUM'')
   \<and> iget (getIntGridProperty demo_props ''FLUXNUM'') 0
       \<noteq> iget (getIntGridProperty demo_props ''FLUXNUM'') 1
   \<and> grid_ok (getIntGridProperty demo_props ''FLUXNUM'')
   \<and> grids_ok demo_props [] \<and> none_applied demo_props [] 0 1 1
   \<and> index_entry (m_searchMap demo_scanner_conflict) ''FLUXNUM'' (1, 2)
       = Some (demo_rule 1 2 7 3 ALL_nnc ''FLUXNUM'')
   \<and> getRegionMultiplier demo_scanner_conflict 0 1 1 = Inr 7
   \<and> getRegionMultiplier demo_scanner_conflict 0 1 16 = Inr 1"
proof -
  let ?r = "demo_rule 1 2 7 3 ALL_nnc ''FLUXNUM''"
  let ?g = "getIntGridProperty demo_props ''FLUXNUM''"
  have a: "MULTREGTScanner_new demo_FromMULTREGTString demo_props demo_deck_conflict
     = Inr demo_scanner_conflict"
    by (simp add: demo_deck_conflict_def demo_scanner_conflict_def build_defs demo_defs)
  have h1: "m_searchMap demo_scanner_conflict = [] @ (''FLUXNUM'', [((1, 2), ?r)]) # []"
    by (simp add: demo_scanner_conflict_def)
  have h2: "last_rule_for (iget ?g 0, iget ?g 1) (m_records demo_scanner_conflict) = Some ?r"
    by (simp add: demo_scanner_conflict_def demo_defs)
  have h3: "region_name ?r = ''FLUXNUM''" by (simp add: demo_rule_def)
  have h4: "iget ?g 0 \<noteq> iget ?g 1" by (simp add: demo_props_def)
  have h5: "grid_ok ?g" by (simp add: grid_ok_def demo_props_def)
  have h6: "directions ?r AND 1 \<noteq> 0" by (simp add: demo_rule_def)
  have h7: "nnc_lets_through (nnc_behaviour ?r) (spec_short ?g 0 1)"
    by (simp add: nnc_lets_through_def demo_rule_def)
  have h8: "grids_ok demo_props [] \<and> none_applied demo_props [] 0 1 1"
    by (simp add: grids_ok_def none_applied_def)
  have b: "m_records demo_scanner_conflict
       = [demo_rule 1 2 (1/2) 48 ALL_nnc ''FLUXNUM'', ?r]"
    by (simp add: demo_scanner_conflict_def)
  have c: "getRegionMultiplier demo_scanner_conflict 0 1 16 = Inr 1"
    by (simp add: demo_scanner_conflict_def lookup_defs demo_defs)
  have d: "last_rule_for (1, 2) (m_records demo_scanner_conflict) = Some ?r"
    using h2 by (simp add: demo_props_def)
  show ?thesis
    using a h1 h2 h3 h4 h5 h6 h7 h8 b c d
      C1_last_rule_wins [OF a, where name = "''FLUXNUM''" and s = 1 and t = 2
        and pre = "[]" and m = "[((1, 2), ?r)]" and post = "[]" and ?g1.0 = 0 and ?g2.0 = 1
        and r = ?r and f = 1]
    by (simp add: demo_rule_def)
qed

text \<open>
  Claim C2 fails as stated. Both categorizations of the scanner below have a rule
  matching the regions of cells 0 and 1 on face X+; the first one in iteration order,
  \<^verbatim>\<open>FLUXNUM\<close>, has behaviour \<^verbatim>\<open>NNC\<close> and is suppressed on these neighbouring cells,
  and the lookup returns the factor 3 of the \<^verbatim>\<open>MULTNUM\<close> rule.
\<close>

theorem C2_counterexample:
  "MULTREGTScanner_new demo_FromMULTREGTString demo_props demo_deck_suppressed
     = Inr demo_scanner_suppressed
   \<and> m_searchMap demo_scanner_suppressed
       = [(''FLUXNUM'', [((1, 2), demo_rule 1 2 (1/2) 63 NNC ''FLUXNUM'')]),
          (''MULTNUM'', [((3, 4), demo_rule 3 4 3 63 ALL_nnc ''MULTNUM'')])]
   \<and> rule_matches [((1, 2), demo_rule 1 2 (1/2) 63 NNC ''FLUXNUM'')]
         (iget (getIntGridProperty demo_props ''FLUXNUM'') 0,
          iget (getIntGridProperty demo_props ''FLUXNUM'') 1) 1
   \<and> rule_matches [((3, 4), demo_rule 3 4 3 63 ALL_nnc ''MULTNUM'')]
         (iget (getIntGridProperty demo_props ''MULTNUM'') 0,
          iget (getIntGridProperty demo_props ''MULTNUM'') 1) 1
   \<and> getRegionMultiplier demo_scanner_suppressed 0 1 1 = Inr 3"
proof -
  have a: "MULTREGTScanner_new demo_FromMULTREGTString demo_props demo_deck_suppressed
     = Inr demo_scanner_suppressed"
    by (simp add: demo_deck_suppressed_def demo_scanner_suppressed_def build_defs demo_defs)
  have b: "m_searchMap demo_scanner_suppressed
       = [(''FLUXNUM'', [((1, 2), demo_rule 1 2 (1/2) 63 NNC ''FLUXNUM'')]),
          (''MULTNUM'', [((3, 4), demo_rule 3 4 3 63 ALL_nnc ''MULTNUM'')])]"
    by (simp add: demo_scanner_suppressed_def)
  have c: "rule_matches [((1, 2), demo_rule 1 2 (1/2) 63 NNC ''FLUXNUM'')]
         (iget (getIntGridProperty demo_props ''FLUXNUM'') 0,
          iget (getIntGridProperty demo_props ''FLUXNUM'') 1) 1"
    by (simp add: rule_matches_def demo_defs)
  have d: "rule_matches [((3, 4), demo_rule 3 4 3 63 ALL_nnc ''MULTNUM'')]
         (iget (getIntGridProperty demo_props ''MULTNUM'') 0,
          iget (getIntGridProperty demo_props ''MULTNUM'') 1) 1"
    by (simp add: rule_matches_def demo_defs)
  have e: "getRegionMultiplier demo_scanner_suppressed 0 1 1 = Inr 3"
    by (simp add: demo_scanner_suppressed_def lookup_defs demo_defs)
  show ?thesis using a b c d e by simp
qed

text \<open>
  Claim C2, amended. The result of the lookup is the factor of the first categorization
  in iteration order whose selected rule (the rule under the forward key when that key
  matches the face, otherwise the one under the swapped key) is let through by its NNC
  behaviour: the lookup returns there, whatever the later categorizations hold. A
  categorization whose selected rule is suppressed does not end the scan, even when its
  swapped key holds a rule that would apply.
\<close>

theorem C2_first_applied_selection:
  assumes "m_searchMap sc = pre @ (name, m) # post"
    and "searchMap_inv (m_searchMap sc)"
    and "grids_ok (m_e3DProps sc) (pre @ [(name, m)])"
    and "none_applied (m_e3DProps sc) pre g1 g2 f"
    and "applied_factor (m_e3DProps sc) name m g1 g2 f = Some x"
  shows "getRegionMultiplier sc g1 g2 f = Inr x"
proof -
  have "list_all (\<lambda>(n, m'). std_map_inv m') (pre @ [(name, m)])"
    using assms(2) unfolding assms(1) by (rule searchMap_inv_inner)
  from scan_regions_first_spec [OF this assms(3,4,5)] show ?thesis
    by (simp add: getRegionMultiplier_def assms(1))
qed

theorem C2_first_applied_selection_witness:
  "MULTREGTScanner_new demo_FromMULTREGTString demo_props demo_deck_shadowed
     = Inr demo_scanner_shadowed
   \<and> m_searchMap demo_scanner_shadowed
       = [(''FLUXNUM'', demo_map_both)]
         @ (''MULTNUM'', [((3, 4), demo_rule 3 4 3 63 ALL_nnc ''MULTNUM'')]) # []
   \<and> searchMap_inv (m_searchMap demo_scanner_shadowed)
   \<and> grids_ok (m_e3DProps demo_scanner_shadowed)
         ([(''FLUXNUM'', demo_map_both)]
          @ [(''MULTNUM'', [((3, 4), demo_rule 3 4 3 63 ALL_nnc ''MULTNUM'')])])
   \<and> none_applied (m_e3DProps demo_scanner_shadowed) [(''FLUXNUM'', demo_map_both)] 0 1 1
   \<and> applicable_in demo_props ''FLUXNUM'' demo_map_both 0 1 1 (2, 1)
   \<and> applied_factor (m_e3DProps demo_scanner_shadowed) ''MULTNUM''
         [((3, 4), demo_rule 3 4 3 63 ALL_nnc ''MULTNUM'')] 0 1 1 = Some 3
   \<and> getRegionMultiplier demo_scanner_shadowed 0 1 1 = Inr 3"
proof -
  let ?mm = "[((3, 4), demo_rule 3 4 3 63 ALL_nnc ''MULTNUM'')]"
  have a: "MULTREGTScanner_new demo_FromMULTREGTString demo_props demo_deck_shadowed
     = Inr demo_scanner_shadowed"
    by (simp add: demo_deck_shadowed_def demo_scanner_shadowed_def demo_map_both_def
          build_defs demo_defs)
  have h1: "m_searchMap demo_scanner_shadowed
       = [(''FLUXNUM'', demo_map_both)] @ (''MULTNUM'', ?mm) # []"
    by (simp add: demo_scanner_shadowed_def)
  have h2: "searchMap_inv (m_searchMap demo_scanner_shadowed)"
    by (simp add: demo_scanner_shadowed_def searchMap_inv_def std_map_inv_def demo_map_both_def)
  have h3: "grids_ok (m_e3DProps demo_scanner_shadowed)
         ([(''FLUXNUM'', demo_map_both)] @ [(''MULTNUM'', ?mm)])"
    by (simp add: demo_scanner_shadowed_def grids_ok_def grid_ok_def demo_props_def)
  have h4: "none_applied (m_e3DProps demo_scanner_shadowed) [(''FLUXNUM'', demo_map_both)] 0 1 1"
    by (simp add: demo_scanner_shadowed_def none_applied_def spec_lookup_defs demo_map_both_def
          demo_defs)
  have h5: "applied_factor (m_e3DProps demo_scanner_shadowed) ''MULTNUM'' ?mm 0 1 1 = Some 3"
    by (simp add: demo_scanner_shadowed_def spec_lookup_defs demo_defs)
  have b: "applicable_in demo_props ''FLUXNUM'' demo_map_both 0 1 1 (2, 1)"
    by (simp add: applicable_in_def demo_rule_def applyMultiplier_def demo_map_both_def)
  show ?thesis
    using a h1 h2 h3 h4 h5 b C2_first_applied_selection [OF h1 h2 h3 h4 h5]
    by simp
qed

text \<open>
  Claim C3 fails as stated. A record with a defaulted source region and the explicit
  target region 4 passes validation and expands, over the regions 3 and 4, to a rule
  from region 4 to region 4.
\<close>

theorem C3_counterexample:
  "assertKeywordSupported demo_keyword_wildcard ''MULTNUM'' = Inr ()
   \<and> addKeyword demo_FromMULTREGTString demo_props demo_keyword_wildcard ''MULTNUM'' []
       = ([demo_rule 3 4 (1/2) 3 ALL_nnc ''MULTNUM'', demo_rule 4 4 (1/2) 3 ALL_nnc ''MULTNUM''],
          None)
   \<and> src_value (demo_rule 4 4 (1/2) 3 ALL_nnc ''MULTNUM'')
       = target_value (demo_rule 4 4 (1/2) 3 ALL_nnc ''MULTNUM'')"
proof -
  have a: "assertKeywordSupported demo_keyword_wildcard ''MULTNUM'' = Inr ()"
    by (simp add: demo_keyword_wildcard_def build_defs demo_defs)
  have b: "addKeyword demo_FromMULTREGTString demo_props demo_keyword_wildcard ''MULTNUM'' []
       = ([demo_rule 3 4 (1/2) 3 ALL_nnc ''MULTNUM'', demo_rule 4 4 (1/2) 3 ALL_nnc ''MULTNUM''],
          None)"
    by (simp add: demo_keyword_wildcard_def build_defs demo_defs)
  show ?thesis using a b by (simp add: demo_rule_def)
qed

text \<open>
  Claim C3, amended. In a keyword occurrence that passes validation, a record whose two
  region references are explicit and not negative emits no rule with equal source and
  target region (a defaulted or negative reference can); the index of a built scanner
  has no entry under a pair of equal regions, and the builder skips a rule with equal
  source and target region without an error.
\<close>

theorem C3_equal_pairs_skipped:
  "(assertKeywordSupported kw d = Inr () \<and> r \<in> set kw
      \<and> \<not> defaultApplied (SRC_REGION r) \<and> 0 \<le> item_value (SRC_REGION r)
      \<and> \<not> defaultApplied (TARGET_REGION r) \<and> 0 \<le> item_value (TARGET_REGION r)
      \<and> addRecord fromString props d' r recs = (recs', None)
     \<longrightarrow> (\<forall>x \<in> set (drop (length recs) recs'). src_value x \<noteq> target_value x))
   \<and> (MULTREGTScanner_new fromString props kws = Inr sc
        \<longrightarrow> index_entry (m_searchMap sc) name (s, s) = None)
   \<and> (hasDeckIntGridProperty props (region_name x) \<and> src_value x = target_value x
        \<longrightarrow> buildSearchPairs props (x # rest) sp = buildSearchPairs props rest sp)"
proof -
  have one: "\<forall>x \<in> set (drop (length recs) recs'). src_value x \<noteq> target_value x"
    if ok: "assertKeywordSupported kw d = Inr ()" and mem: "r \<in> set kw"
      and src: "\<not> defaultApplied (SRC_REGION r)" "0 \<le> item_value (SRC_REGION r)"
      and tgt: "\<not> defaultApplied (TARGET_REGION r)" "0 \<le> item_value (TARGET_REGION r)"
      and add: "addRecord fromString props d' r recs = (recs', None)"
  proof -
    from assertKeywordSupported_ok [OF ok mem] src tgt
    have ne: "item_value (SRC_REGION r) \<noteq> item_value (TARGET_REGION r)"
      by (auto simp: unsupported_record_def)
    from addRecord_cases [OF add] obtain dirs nnc rname
      where "recs' = recs @ expanded_rules props r dirs nnc rname" by blast
    then show ?thesis
      using ne src tgt by (auto simp: expanded_rules_def)
  qed
  have two: "index_entry (m_searchMap sc) name (s, s) = None"
    if "MULTREGTScanner_new fromString props kws = Inr sc"
    using index_entry_built [OF that, of name s s] by (simp split: option.splits)
  have three: "buildSearchPairs props (x # rest) sp = buildSearchPairs props rest sp"
    if "hasDeckIntGridProperty props (region_name x)" "src_value x = target_value x"
    using that by simp
  show ?thesis
    by (intro conjI impI)
      ((elim conjE, rule one, assumption+), (rule two, assumption),
       (elim conjE, rule three, assumption+))
qed

theorem C3_equal_pairs_skipped_witness:
  "assertKeywordSupported
      [demo_record (explicit_item 3) (explicit_item 4) 2 ''X'' ''ALL'' (explicit_item ''M'')]
      ''MULTNUM'' = Inr ()
   \<and> addRecord demo_FromMULTREGTString demo_props ''MULTNUM''
        (demo_record (explicit_item 3) (explicit_item 4) 2 ''X'' ''ALL'' (explicit_item ''M''))
        [] = ([demo_rule 3 4 2 3 ALL_nnc ''MULTNUM''], None)
   \<and> MULTREGTScanner_new demo_FromMULTREGTString demo_props [demo_keyword_wildcard]
       = Inr demo_scanner_wildcard
   \<and> hasDeckIntGridProperty demo_props (region_name (demo_rule 4 4 (1/2) 3 ALL_nnc ''MULTNUM''))
   \<and> index_entry (m_searchMap demo_scanner_wildcard) ''MULTNUM'' (4, 4) = None
   \<and> buildSearchPairs demo_props [demo_rule 4 4 (1/2) 3 ALL_nnc ''MULTNUM''] [] = Inr []"
proof -
  let ?r = "demo_record (explicit_item 3) (explicit_item 4) 2 ''X'' ''ALL'' (explicit_item ''M'')"
  let ?x = "demo_rule 4 4 (1/2) 3 ALL_nnc ''MULTNUM''"
  have h1: "assertKeywordSupported [?r] ''MULTNUM'' = Inr ()"
    by (simp add: build_defs demo_defs)
  have h2: "addRecord demo_FromMULTREGTString demo_props ''MULTNUM'' ?r []
              = ([demo_rule 3 4 2 3 ALL_nnc ''MULTNUM''], None)"
    by (simp add: build_defs demo_defs)
  have h3: "MULTREGTScanner_new demo_FromMULTREGTString demo_props [demo_keyword_wildcard]
       = Inr demo_scanner_wildcard"
    by (simp add: demo_keyword_wildcard_def demo_scanner_wildcard_def build_defs demo_defs)
  have h4: "hasDeckIntGridProperty demo_props (region_name ?x) \<and> src_value ?x = target_value ?x"
    by (simp add: demo_defs)
  have h5: "\<not> defaultApplied (SRC_REGION ?r) \<and> 0 \<le> item_value (SRC_REGION ?r)
      \<and> \<not> defaultApplied (TARGET_REGION ?r) \<and> 0 \<le> item_value (TARGET_REGION ?r)"
    by (simp add: demo_defs)
  show ?thesis
    using h1 h2 h3 h4 h5
      C3_equal_pairs_skipped [where kw = "[?r]" and d = "''MULTNUM''" and r = ?r
        and fromString = demo_FromMULTREGTString and props = demo_props
        and d' = "''MULTNUM''" and recs = "[]"
        and recs' = "[demo_rule 3 4 2 3 ALL_nnc ''MULTNUM'']"
        and kws = "[demo_keyword_wildcard]" and sc = demo_scanner_wildcard
        and name = "''MULTNUM''" and s = 4 and x = ?x and rest = "[]" and sp = "[]"]
    by simp
qed

text \<open>
  Claim C4. On a grid whose extents are positive and fit an \<^verbatim>\<open>int\<close>, for every
  matched rule the lookup classifies the two cells as a short neighbour pair if and
  only if \<open>(|\<Delta>i|, |\<Delta>j|)\<close> is \<open>(0, 1)\<close> or \<open>(1, 0)\<close>, with
  \<open>i = globalIndex mod NX\<close> and \<open>j = (globalIndex div NX) mod NY\<close>; behaviour
  \<^verbatim>\<open>NNC\<close> then applies the multiplier exactly when the pair is not short,
  \<^verbatim>\<open>NONNC\<close> exactly when it is short, and \<^verbatim>\<open>ALL\<close> always.
\<close>

theorem C4_nnc_classification:
  assumes "grid_ok (getIntGridProperty props name)"
    and "select_pair m (iget (getIntGridProperty props name) g1)
           (iget (getIntGridProperty props name) g2) f = Some p"
    and "map_at m p = Some r"
  shows "short_neighbour (coord_i (getIntGridProperty props name) g1)
           (coord_i (getIntGridProperty props name) g2)
           (coord_j (getIntGridProperty props name) g1)
           (coord_j (getIntGridProperty props name) g2)
         = spec_short (getIntGridProperty props name) g1 g2
       \<and> region_step props name m g1 g2 f =
           Inr (if nnc_behaviour r = NNC
                then (if spec_short (getIntGridProperty props name) g1 g2
                      then None else Some (trans_mult r))
                else if nnc_behaviour r = NONNC
                then (if spec_short (getIntGridProperty props name) g1 g2
                      then Some (trans_mult r) else None)
                else Some (trans_mult r))"
proof -
  let ?region = "getIntGridProperty props name"
  have pos: "0 < getNX ?region" "0 < getNY ?region"
    using assms(1) by (simp_all add: grid_ok_def)
  have short: "short_neighbour (coord_i ?region g1) (coord_i ?region g2)
                 (coord_j ?region g1) (coord_j ?region g2) = spec_short ?region g1 g2"
    by (rule short_neighbour_spec [OF assms(1)])
  have step: "region_step props name m g1 g2 f =
     (if applyMultiplier (nnc_behaviour r) (coord_i ?region g1) (coord_i ?region g2)
           (coord_j ?region g1) (coord_j ?region g2)
      then Inr (Some (trans_mult r)) else Inr None)"
    by (rule region_step_selected [OF assms(2,3) pos])
  show ?thesis
    unfolding step by (simp add: applyMultiplier_def short)
qed

theorem C4_nnc_classification_witness:
  "grid_ok (getIntGridProperty demo_props ''FLUXNUM'')
   \<and> select_pair demo_map_nnc
         (iget (getIntGridProperty demo_props ''FLUXNUM'') 0)
         (iget (getIntGridProperty demo_props ''FLUXNUM'') 1) 1 = Some (1, 2)
   \<and> map_at demo_map_nnc (1, 2) = Some (demo_rule 1 2 (1/2) 63 NNC ''FLUXNUM'')
   \<and> spec_short (getIntGridProperty demo_props ''FLUXNUM'') 0 1
   \<and> region_step demo_props ''FLUXNUM'' demo_map_nnc 0 1 1 = Inr None"
proof -
  have h1: "grid_ok (getIntGridProperty demo_props ''FLUXNUM'')"
    by (simp add: demo_props_def grid_ok_def)
  have h2: "select_pair demo_map_nnc (iget (getIntGridProperty demo_props ''FLUXNUM'') 0)
         (iget (getIntGridProperty demo_props ''FLUXNUM'') 1) 1 = Some (1, 2)"
    by (simp add: demo_props_def select_pair_def no_match_def map_count_def map_at_def
          demo_rule_def demo_map_nnc_def)
  have h3: "map_at demo_map_nnc (1, 2) = Some (demo_rule 1 2 (1/2) 63 NNC ''FLUXNUM'')"
    by (simp add: map_at_def demo_map_nnc_def)
  have h4: "spec_short (getIntGridProperty demo_props ''FLUXNUM'') 0 1"
    by (simp add: spec_short_def grid_delta_i_def grid_delta_j_def demo_props_def)
  show ?thesis
    using h1 h2 h3 h4 C4_nnc_classification [OF h1 h2 h3]
    by (simp add: demo_rule_def)
qed

text \<open>
  Claim C5. The lookup tries the key \<open>(idA, idB)\<close> first and, exactly when that key
  is absent or its direction mask excludes the face, the swapped key \<open>(idB, idA)\<close>
  with the same test; so a rule defined only for \<open>(region1, region2)\<close> is found by a
  query whose cells lie in \<open>(region2, region1)\<close>.
\<close>

theorem C5_swapped_key:
  assumes "std_map_inv m"
  shows "select_pair m a b f =
           (if rule_matches m (a, b) f then Some (a, b)
            else if rule_matches m (b, a) f then Some (b, a) else None)
       \<and> (map_of m (a, b) = Some r \<and> directions r AND f \<noteq> 0 \<and> map_of m (b, a) = None
            \<longrightarrow> select_pair m b a f = Some (a, b))
       \<and> (map_of m (a, b) = Some r \<and> directions r AND f \<noteq> 0 \<and> map_of m (b, a) = None
            \<and> iget (getIntGridProperty props name) g1 = b
            \<and> iget (getIntGridProperty props name) g2 = a
            \<and> nnc_behaviour r = ALL_nnc
            \<and> 0 < getNX (getIntGridProperty props name)
            \<and> 0 < getNY (getIntGridProperty props name)
            \<longrightarrow> scan_regions props ((name, m) # rest) g1 g2 f = Inr (trans_mult r))"
proof -
  have sel: "select_pair m x y f =
           (if rule_matches m (x, y) f then Some (x, y)
            else if rule_matches m (y, x) f then Some (y, x) else None)" for x y
    by (rule select_pair_spec [OF assms])
  have swapped: "select_pair m b a f = Some (a, b)"
    if "map_of m (a, b) = Some r" "directions r AND f \<noteq> 0" "map_of m (b, a) = None"
    using that by (simp add: sel rule_matches_def)
  have found: "scan_regions props ((name, m) # rest) g1 g2 f = Inr (trans_mult r)"
    if h: "map_of m (a, b) = Some r" "directions r AND f \<noteq> 0" "map_of m (b, a) = None"
      and g: "iget (getIntGridProperty props name) g1 = b"
        "iget (getIntGridProperty props name) g2 = a"
      and all: "nnc_behaviour r = ALL_nnc"
      and pos: "0 < getNX (getIntGridProperty props name)"
        "0 < getNY (getIntGridProperty props name)"
  proof -
    have s: "select_pair m (iget (getIntGridProperty props name) g1)
               (iget (getIntGridProperty props name) g2) f = Some (a, b)"
      using swapped [OF h] g by simp
    have at: "map_at m (a, b) = Some r" using h(1) by (simp add: map_at_def)
    show ?thesis
      by (simp add: region_step_selected [OF s at pos] applyMultiplier_def all)
  qed
  show ?thesis
    by (intro conjI impI)
      (rule sel, (elim conjE, rule swapped, assumption+), (elim conjE, rule found, assumption+))
qed

theorem C5_swapped_key_witness:
  "std_map_inv demo_map_all
   \<and> select_pair demo_map_all 2 1 1 = Some (1, 2)
   \<and> scan_regions demo_props [(''FLUXNUM'', demo_map_all)] 1 0 1 = Inr (1/2)"
proof -
  let ?r = "demo_rule 1 2 (1/2) 63 ALL_nnc ''FLUXNUM''"
  have h1: "std_map_inv demo_map_all" by (simp add: std_map_inv_def demo_map_all_def)
  have h2: "map_of demo_map_all (1, 2) = Some ?r \<and> directions ?r AND 1 \<noteq> 0
      \<and> map_of demo_map_all (2, 1) = None"
    by (simp add: demo_rule_def demo_map_all_def)
  have h3: "iget (getIntGridProperty demo_props ''FLUXNUM'') 1 = 2
      \<and> iget (getIntGridProperty demo_props ''FLUXNUM'') 0 = 1
      \<and> nnc_behaviour ?r = ALL_nnc
      \<and> 0 < getNX (getIntGridProperty demo_props ''FLUXNUM'')
      \<and> 0 < getNY (getIntGridProperty demo_props ''FLUXNUM'')"
    by (simp add: demo_rule_def demo_props_def)
  show ?thesis
    using h1 h2 h3
      C5_swapped_key [OF h1, of 1 2 1 ?r demo_props "''FLUXNUM''" 1 0 "[]"]
    by (simp add: demo_rule_def)
qed

text \<open>
  Claim C6. A record whose direction token, behaviour code and categorization resolve
  appends exactly one rule per pair of the Cartesian product of its source and target
  region sets, in generation order; a defaulted or negative reference stands for all
  regions of the resolved categorization, an explicit one for itself; all rules share
  the multiplier, direction mask, NNC behaviour and categorization name of the record.
\<close>

theorem C6_cartesian_expansion:
  assumes "fromString (item_value (DIRECTIONS r)) = Inr dirs"
    and "NNCBehaviourFromString (item_value (NNC_MULT r)) = Inr nnc"
    and "resolve_region_name r defaultRegion recs = Inr rname"
  shows "addRecord fromString props defaultRegion r recs =
           (recs @ map (\<lambda>(s, t). \<lparr>src_value = s, target_value = t,
                                   trans_mult = item_value (TRAN_MULT r), directions = dirs,
                                   nnc_behaviour = nnc, region_name = rname\<rparr>)
                     (List.product
                        (if defaultApplied (SRC_REGION r) \<or> item_value (SRC_REGION r) < 0
                         then getRegions props rname else [item_value (SRC_REGION r)])
                        (if defaultApplied (TARGET_REGION r) \<or> item_value (TARGET_REGION r) < 0
                         then getRegions props rname else [item_value (TARGET_REGION r)])),
            None)"
  using addRecord_eq [where fromString = fromString, OF assms]
  by (simp add: expanded_rules_def)

theorem C6_cartesian_expansion_witness:
  "demo_FromMULTREGTString
      (item_value (DIRECTIONS (demo_record (defaulted_item (- 1)) (explicit_item 4) 2 ''X'' ''ALL''
                                 (explicit_item ''M'')))) = Inr 3
   \<and> NNCBehaviourFromString
      (item_value (NNC_MULT (demo_record (defaulted_item (- 1)) (explicit_item 4) 2 ''X'' ''ALL''
                               (explicit_item ''M'')))) = Inr ALL_nnc
   \<and> resolve_region_name
        (demo_record (defaulted_item (- 1)) (explicit_item 4) 2 ''X'' ''ALL'' (explicit_item ''M''))
        ''FLUXNUM'' [] = Inr ''MULTNUM''
   \<and> addRecord demo_FromMULTREGTString demo_props ''FLUXNUM''
        (demo_record (defaulted_item (- 1)) (explicit_item 4) 2 ''X'' ''ALL'' (explicit_item ''M''))
        [] = ([demo_rule 3 4 2 3 ALL_nnc ''MULTNUM'', demo_rule 4 4 2 3 ALL_nnc ''MULTNUM''], None)"
proof -
  let ?r = "demo_record (defaulted_item (- 1)) (explicit_item 4) 2 ''X'' ''ALL''
              (explicit_item ''M'')"
  have h1: "demo_FromMULTREGTString (item_value (DIRECTIONS ?r)) = Inr 3"
    by (simp add: demo_FromMULTREGTString_def demo_record_def explicit_item_def)
  have h2: "NNCBehaviourFromString (item_value (NNC_MULT ?r)) = Inr ALL_nnc"
    by (simp add: NNCBehaviourFromString_def demo_record_def explicit_item_def)
  have h3: "resolve_region_name ?r ''FLUXNUM'' [] = Inr ''MULTNUM''"
    by (simp add: resolve_region_name_def RegionNameFromDeckValue_def demo_record_def
          explicit_item_def)
  show ?thesis
    using h1 h2 h3
      C6_cartesian_expansion [where fromString = demo_FromMULTREGTString, OF h1 h2 h3,
        of demo_props]
    by (simp add: demo_record_def explicit_item_def defaulted_item_def demo_props_def
          demo_rule_def)
qed

text \<open>
  Claim C7. A record with a defaulted categorization, whose direction token and
  behaviour code resolve, is expanded under the name of the last rule of the list built
  so far, or under the default categorization when that list is empty; a record with an
  explicit code is expanded under the name O/F/M gives, and fails with that resolver's
  error otherwise. The list is not reset between keyword occurrences: a deck whose
  occurrences all pass validation expands as the single occurrence of all its records
  would, starting from the default categorization of the caller.
\<close>

theorem C7_region_name_resolution:
  "(fromString (item_value (DIRECTIONS r)) = Inr dirs
      \<and> NNCBehaviourFromString (item_value (NNC_MULT r)) = Inr nnc
      \<and> defaultApplied (REGION_DEF r)
     \<longrightarrow> addRecord fromString props defaultRegion r recs =
           (recs @ expanded_rules props r dirs nnc
                     (if recs = [] then defaultRegion else region_name (last recs)),
            None))
   \<and> (fromString (item_value (DIRECTIONS r)) = Inr dirs
      \<and> NNCBehaviourFromString (item_value (NNC_MULT r)) = Inr nnc
      \<and> \<not> defaultApplied (REGION_DEF r)
     \<longrightarrow> addRecord fromString props defaultRegion r recs =
           (case RegionNameFromDeckValue (item_value (REGION_DEF r)) of
              Inl e \<Rightarrow> (recs, Some e)
            | Inr rname \<Rightarrow> (recs @ expanded_rules props r dirs nnc rname, None)))
   \<and> (addRecord fromString props defaultRegion r recs = (recs', None) \<longrightarrow>
      take (length recs) recs' = recs
      \<and> (\<forall>x \<in> set (drop (length recs) recs').
           Inr (region_name x) =
             (if defaultApplied (REGION_DEF r)
              then Inr (if recs = [] then defaultRegion else region_name (last recs))
              else RegionNameFromDeckValue (item_value (REGION_DEF r)))))
   \<and> (all_supported kws (getDefaultRegionKeyword props) \<longrightarrow>
        addKeywords fromString props kws recs =
          addRecords fromString props (getDefaultRegionKeyword props) (concat kws) recs)
   \<and> RegionNameFromDeckValue ''O'' = Inr ''OPERNUM''
   \<and> RegionNameFromDeckValue ''F'' = Inr ''FLUXNUM''
   \<and> RegionNameFromDeckValue ''M'' = Inr ''MULTNUM''
   \<and> (code \<notin> set [''O'', ''F'', ''M''] \<longrightarrow> RegionNameFromDeckValue code = Inl invalid_argument)"
proof -
  have dflt: "addRecord fromString props defaultRegion r recs =
           (recs @ expanded_rules props r dirs nnc
                     (if recs = [] then defaultRegion else region_name (last recs)),
            None)"
    if "fromString (item_value (DIRECTIONS r)) = Inr dirs"
      "NNCBehaviourFromString (item_value (NNC_MULT r)) = Inr nnc"
      "defaultApplied (REGION_DEF r)"
  proof -
    have "resolve_region_name r defaultRegion recs =
            Inr (if recs = [] then defaultRegion else region_name (last recs))"
      using that(3) by (simp add: resolve_region_name_def)
    from addRecord_eq [where fromString = fromString, OF that(1,2) this] show ?thesis .
  qed
  have expl: "addRecord fromString props defaultRegion r recs =
           (case RegionNameFromDeckValue (item_value (REGION_DEF r)) of
              Inl e \<Rightarrow> (recs, Some e)
            | Inr rname \<Rightarrow> (recs @ expanded_rules props r dirs nnc rname, None))"
    if "fromString (item_value (DIRECTIONS r)) = Inr dirs"
      "NNCBehaviourFromString (item_value (NNC_MULT r)) = Inr nnc"
      "\<not> defaultApplied (REGION_DEF r)"
  proof (cases "RegionNameFromDeckValue (item_value (REGION_DEF r))")
    case (Inl e)
    then have "resolve_region_name r defaultRegion recs = Inl e"
      using that(3) by (simp add: resolve_region_name_def)
    with that(1,2) Inl show ?thesis by (simp add: addRecord_def)
  next
    case (Inr rname)
    then have "resolve_region_name r defaultRegion recs = Inr rname"
      using that(3) by (simp add: resolve_region_name_def)
    from addRecord_eq [where fromString = fromString, OF that(1,2) this] Inr
    show ?thesis by simp
  qed
  have one: "take (length recs) recs' = recs
      \<and> (\<forall>x \<in> set (drop (length recs) recs').
           Inr (region_name x) =
             (if defaultApplied (REGION_DEF r)
              then Inr (if recs = [] then defaultRegion else region_name (last recs))
              else RegionNameFromDeckValue (item_value (REGION_DEF r))))"
    if h: "addRecord fromString props defaultRegion r recs = (recs', None)"
  proof -
    from addRecord_cases [OF h] obtain dirs nnc rname
      where rn: "resolve_region_name r defaultRegion recs = Inr rname"
        and eq: "recs' = recs @ expanded_rules props r dirs nnc rname"
      by blast
    have names: "\<forall>x \<in> set (drop (length recs) recs'). region_name x = rname"
      using eq by (auto dest: expanded_rules_region_name)
    have "Inr rname = (if defaultApplied (REGION_DEF r)
              then Inr (if recs = [] then defaultRegion else region_name (last recs))
              else RegionNameFromDeckValue (item_value (REGION_DEF r)))"
      using rn by (auto simp: resolve_region_name_def Let_def split: if_splits)
    with names eq show ?thesis by simp
  qed
  have codes: "RegionNameFromDeckValue ''O'' = Inr ''OPERNUM''"
      "RegionNameFromDeckValue ''F'' = Inr ''FLUXNUM''"
      "RegionNameFromDeckValue ''M'' = Inr ''MULTNUM''"
      "code \<notin> set [''O'', ''F'', ''M''] \<longrightarrow> RegionNameFromDeckValue code = Inl invalid_argument"
    by (simp_all add: RegionNameFromDeckValue_def)
  have c1: "fromString (item_value (DIRECTIONS r)) = Inr dirs
      \<and> NNCBehaviourFromString (item_value (NNC_MULT r)) = Inr nnc
      \<and> defaultApplied (REGION_DEF r)
     \<longrightarrow> addRecord fromString props defaultRegion r recs =
           (recs @ expanded_rules props r dirs nnc
                     (if recs = [] then defaultRegion else region_name (last recs)),
            None)"
    by (rule impI, elim conjE, rule dflt)
  have c2: "fromString (item_value (DIRECTIONS r)) = Inr dirs
      \<and> NNCBehaviourFromString (item_value (NNC_MULT r)) = Inr nnc
      \<and> \<not> defaultApplied (REGION_DEF r)
     \<longrightarrow> addRecord fromString props defaultRegion r recs =
           (case RegionNameFromDeckValue (item_value (REGION_DEF r)) of
              Inl e \<Rightarrow> (recs, Some e)
            | Inr rname \<Rightarrow> (recs @ expanded_rules props r dirs nnc rname, None))"
    by (rule impI, elim conjE, rule expl)
  show ?thesis
    using c1 c2 one addKeywords_concat codes by blast
qed

theorem C7_region_name_resolution_witness:
  "demo_FromMULTREGTString (item_value (DIRECTIONS demo_record_defaulted)) = Inr 3
   \<and> NNCBehaviourFromString (item_value (NNC_MULT demo_record_defaulted)) = Inr ALL_nnc
   \<and> defaultApplied (REGION_DEF demo_record_defaulted)
   \<and> addRecord demo_FromMULTREGTString demo_props ''FLUXNUM'' demo_record_defaulted []
       = ([demo_rule 3 4 2 3 ALL_nnc ''FLUXNUM''], None)
   \<and> addKeywords demo_FromMULTREGTString demo_props [[demo_record_defaulted]] []
       = ([demo_rule 3 4 2 3 ALL_nnc ''MULTNUM''], None)
   \<and> demo_FromMULTREGTString (item_value (DIRECTIONS demo_record_inheriting)) = Inr 12
   \<and> NNCBehaviourFromString (item_value (NNC_MULT demo_record_inheriting)) = Inr NNC
   \<and> defaultApplied (REGION_DEF demo_record_inheriting)
   \<and> addRecord demo_FromMULTREGTString demo_props ''MULTNUM'' demo_record_inheriting
         [demo_rule 1 2 2 3 ALL_nnc ''FLUXNUM'']
       = ([demo_rule 1 2 2 3 ALL_nnc ''FLUXNUM'', demo_rule 2 1 5 12 NNC ''FLUXNUM''], None)
   \<and> \<not> defaultApplied (REGION_DEF demo_record_explicit)
   \<and> addRecord demo_FromMULTREGTString demo_props ''MULTNUM'' demo_record_explicit []
       = ([demo_rule 1 2 2 3 ALL_nnc ''FLUXNUM''], None)
   \<and> all_supported demo_deck_inherit (getDefaultRegionKeyword demo_props)
   \<and> all_supported [[demo_record_defaulted]] (getDefaultRegionKeyword demo_props)
   \<and> addKeywords demo_FromMULTREGTString demo_props demo_deck_inherit []
       = ([demo_rule 1 2 2 3 ALL_nnc ''FLUXNUM'', demo_rule 2 1 5 12 NNC ''FLUXNUM''], None)
   \<and> ''Q'' \<notin> set [''O'', ''F'', ''M'']
   \<and> RegionNameFromDeckValue ''Q'' = Inl invalid_argument"
proof -
  let ?f = demo_FromMULTREGTString
  have d1: "?f (item_value (DIRECTIONS demo_record_defaulted)) = Inr 3
      \<and> NNCBehaviourFromString (item_value (NNC_MULT demo_record_defaulted)) = Inr ALL_nnc
      \<and> defaultApplied (REGION_DEF demo_record_defaulted)"
    by (simp add: demo_record_defs demo_defs NNCBehaviourFromString_def)
  have d2: "?f (item_value (DIRECTIONS demo_record_inheriting)) = Inr 12
      \<and> NNCBehaviourFromString (item_value (NNC_MULT demo_record_inheriting)) = Inr NNC
      \<and> defaultApplied (REGION_DEF demo_record_inheriting)"
    by (simp add: demo_record_defs demo_defs NNCBehaviourFromString_def)
  have d3: "?f (item_value (DIRECTIONS demo_record_explicit)) = Inr 3
      \<and> NNCBehaviourFromString (item_value (NNC_MULT demo_record_explicit)) = Inr ALL_nnc
      \<and> \<not> defaultApplied (REGION_DEF demo_record_explicit)"
    by (simp add: demo_record_defs demo_defs NNCBehaviourFromString_def)
  have s1: "all_supported demo_deck_inherit (getDefaultRegionKeyword demo_props)"
    by (simp add: all_supported_def demo_deck_inherit_def assertRecordSupported_def
          NNCBehaviourFromString_def demo_record_def explicit_item_def defaulted_item_def)
  have s2: "all_supported [[demo_record_defaulted]] (getDefaultRegionKeyword demo_props)"
    by (simp add: all_supported_def assertRecordSupported_def demo_record_defs
          NNCBehaviourFromString_def demo_record_def explicit_item_def defaulted_item_def)
  have q: "''Q'' \<notin> set [''O'', ''F'', ''M'']" by simp
  have e1: "expanded_rules demo_props demo_record_defaulted 3 ALL_nnc rn
              = [demo_rule 3 4 2 3 ALL_nnc rn]" for rn
    by (simp add: expanded_rules_def demo_record_defs demo_defs)
  have e2: "expanded_rules demo_props demo_record_inheriting 12 NNC rn
              = [demo_rule 2 1 5 12 NNC rn]" for rn
    by (simp add: expanded_rules_def demo_record_defs demo_defs)
  have e3: "expanded_rules demo_props demo_record_explicit 3 ALL_nnc rn
              = [demo_rule 1 2 2 3 ALL_nnc rn]" for rn
    by (simp add: expanded_rules_def demo_record_defs demo_defs)
  have f3: "RegionNameFromDeckValue (item_value (REGION_DEF demo_record_explicit))
              = Inr ''FLUXNUM''"
    by (simp add: RegionNameFromDeckValue_def demo_record_defs demo_defs)
  have a1: "addRecord ?f demo_props dr demo_record_defaulted []
              = ([demo_rule 3 4 2 3 ALL_nnc dr], None)" for dr
    using d1 C7_region_name_resolution [where fromString = ?f and props = demo_props
        and r = demo_record_defaulted and dirs = 3 and nnc = ALL_nnc
        and defaultRegion = dr and recs = "[]"]
    by (simp add: e1)
  have a2: "addRecord ?f demo_props ''MULTNUM'' demo_record_inheriting
              [demo_rule 1 2 2 3 ALL_nnc ''FLUXNUM'']
              = ([demo_rule 1 2 2 3 ALL_nnc ''FLUXNUM'', demo_rule 2 1 5 12 NNC ''FLUXNUM''],
                 None)"
    using d2 C7_region_name_resolution [where fromString = ?f and props = demo_props
        and r = demo_record_inheriting and dirs = 12 and nnc = NNC
        and defaultRegion = "''MULTNUM''" and recs = "[demo_rule 1 2 2 3 ALL_nnc ''FLUXNUM'']"]
    by (simp add: e2 demo_rule_def)
  have a3: "addRecord ?f demo_props ''MULTNUM'' demo_record_explicit []
              = ([demo_rule 1 2 2 3 ALL_nnc ''FLUXNUM''], None)"
    using d3 f3 C7_region_name_resolution [where fromString = ?f and props = demo_props
        and r = demo_record_explicit and dirs = 3 and nnc = ALL_nnc
        and defaultRegion = "''MULTNUM''" and recs = "[]"]
    by (simp add: e3)
  have dk: "getDefaultRegionKeyword demo_props = ''MULTNUM''" by (simp add: demo_props_def)
  have k1: "addKeywords ?f demo_props [[demo_record_defaulted]] []
              = ([demo_rule 3 4 2 3 ALL_nnc ''MULTNUM''], None)"
    using s2 C7_region_name_resolution [where fromString = ?f and props = demo_props
        and kws = "[[demo_record_defaulted]]" and recs = "[]"]
    by (simp add: a1 dk)
  have k2: "addKeywords ?f demo_props demo_deck_inherit []
              = ([demo_rule 1 2 2 3 ALL_nnc ''FLUXNUM'', demo_rule 2 1 5 12 NNC ''FLUXNUM''],
                 None)"
  proof -
    have "concat demo_deck_inherit = [demo_record_explicit, demo_record_inheriting]"
      by (simp add: demo_deck_inherit_def demo_record_defs)
    with s1 C7_region_name_resolution [where fromString = ?f and props = demo_props
        and kws = demo_deck_inherit and recs = "[]"]
    show ?thesis by (simp add: a2 a3 dk)
  qed
  have c: "RegionNameFromDeckValue ''Q'' = Inl invalid_argument"
    using q C7_region_name_resolution [where code = "''Q''"] by blast
  show ?thesis
    using d1 d2 d3 s1 s2 q a1 [of "''FLUXNUM''"] a2 a3 k1 k2 c by simp
qed

text \<open>
  Claim C8. A keyword occurrence with a record whose region references are explicit
  and equal, or whose behaviour is \<^verbatim>\<open>NOAQUNNC\<close> or unrecognized, fails validation
  with \<^verbatim>\<open>invalid_argument\<close>, and \<^verbatim>\<open>addKeyword\<close> throws before it appends any
  rule: the rule list is as it was.
\<close>

theorem C8_validation_rejects:
  assumes "r \<in> set kw" and "unsupported_record r"
  shows "assertKeywordSupported kw defaultRegion = Inl invalid_argument
       \<and> addKeyword fromString props kw defaultRegion recs = (recs, Some invalid_argument)"
proof -
  have "assertKeywordSupported kw defaultRegion = Inl invalid_argument"
    using assms assertKeywordSupported_unsupported by blast
  then show ?thesis by (simp add: addKeyword_def)
qed

theorem C8_validation_rejects_witness:
  "demo_record (explicit_item 3) (explicit_item 3) 2 ''X'' ''ALL'' (explicit_item ''M'')
     \<in> set [demo_record (explicit_item 3) (explicit_item 4) 2 ''X'' ''ALL'' (explicit_item ''M''),
              demo_record (explicit_item 3) (explicit_item 3) 2 ''X'' ''ALL'' (explicit_item ''M'')]
   \<and> unsupported_record
         (demo_record (explicit_item 3) (explicit_item 3) 2 ''X'' ''ALL'' (explicit_item ''M''))
   \<and> addKeyword demo_FromMULTREGTString demo_props
         [demo_record (explicit_item 3) (explicit_item 4) 2 ''X'' ''ALL'' (explicit_item ''M''),
          demo_record (explicit_item 3) (explicit_item 3) 2 ''X'' ''ALL'' (explicit_item ''M'')]
         ''MULTNUM'' [] = ([], Some invalid_argument)"
proof -
  let ?bad = "demo_record (explicit_item 3) (explicit_item 3) 2 ''X'' ''ALL'' (explicit_item ''M'')"
  let ?kw = "[demo_record (explicit_item 3) (explicit_item 4) 2 ''X'' ''ALL'' (explicit_item ''M''),
              ?bad]"
  have h1: "?bad \<in> set ?kw" by simp
  have h2: "unsupported_record ?bad"
    by (simp add: unsupported_record_def demo_record_def explicit_item_def)
  show ?thesis
    using h1 h2
      C8_validation_rejects [OF h1 h2, of "''MULTNUM''" demo_FromMULTREGTString demo_props "[]"]
    by simp
qed



text \<open>
  Claim C10. Within one categorization, when the forward key is present and its
  direction mask includes the face, the result of the iteration is that of the forward
  rule alone: whatever is stored under the swapped key does not change it, and when the
  NNC behaviour of the forward rule suppresses the multiplier the scan goes on with the
  next categorization.
\<close>

theorem C10_forward_key_first:
  assumes "std_map_inv m"
    and "map_of m (iget (getIntGridProperty props name) g1,
                   iget (getIntGridProperty props name) g2) = Some r"
    and "directions r AND f \<noteq> 0"
    and "0 < getNX (getIntGridProperty props name)"
    and "0 < getNY (getIntGridProperty props name)"
  shows "region_step props name m g1 g2 f =
           (if applyMultiplier (nnc_behaviour r)
                 (coord_i (getIntGridProperty props name) g1)
                 (coord_i (getIntGridProperty props name) g2)
                 (coord_j (getIntGridProperty props name) g1)
                 (coord_j (getIntGridProperty props name) g2)
            then Inr (Some (trans_mult r)) else Inr None)
       \<and> (iget (getIntGridProperty props name) g1 \<noteq> iget (getIntGridProperty props name) g2
            \<longrightarrow> region_step props name
                  (map_assign (iget (getIntGridProperty props name) g2,
                               iget (getIntGridProperty props name) g1) r' m) g1 g2 f
                = region_step props name m g1 g2 f)
       \<and> (\<not> applyMultiplier (nnc_behaviour r)
                 (coord_i (getIntGridProperty props name) g1)
                 (coord_i (getIntGridProperty props name) g2)
                 (coord_j (getIntGridProperty props name) g1)
                 (coord_j (getIntGridProperty props name) g2)
            \<longrightarrow> scan_regions props ((name, m) # rest) g1 g2 f
                = scan_regions props rest g1 g2 f)"
proof -
  let ?region = "getIntGridProperty props name"
  let ?a = "iget ?region g1" and ?b = "iget ?region g2"
  let ?app = "applyMultiplier (nnc_behaviour r) (coord_i ?region g1) (coord_i ?region g2)
                (coord_j ?region g1) (coord_j ?region g2)"
  have fwd: "select_pair m' ?a ?b f = Some (?a, ?b) \<and> map_at m' (?a, ?b) = Some r"
    if "std_map_inv m'" "map_of m' (?a, ?b) = Some r" for m'
    using that assms(3) by (simp add: select_pair_spec rule_matches_def map_at_def)
  have one: "region_step props name m' g1 g2 f = (if ?app then Inr (Some (trans_mult r)) else Inr None)"
    if "std_map_inv m'" "map_of m' (?a, ?b) = Some r" for m'
    using fwd [OF that] assms(4,5) by (simp add: region_step_selected)
  have first: "region_step props name m g1 g2 f = (if ?app then Inr (Some (trans_mult r)) else Inr None)"
    by (rule one [OF assms(1,2)])
  have second: "region_step props name (map_assign (?b, ?a) r' m) g1 g2 f
                  = region_step props name m g1 g2 f" if "?a \<noteq> ?b"
  proof -
    have "map_of (map_assign (?b, ?a) r' m) (?a, ?b) = Some r"
      using that assms(2) by (simp add: map_of_map_assign)
    then show ?thesis
      using one [OF std_map_inv_assign [OF assms(1)]] first by simp
  qed
  have third: "scan_regions props ((name, m) # rest) g1 g2 f = scan_regions props rest g1 g2 f"
    if "\<not> ?app"
    using that by (simp add: first)
  show ?thesis using first second third by blast
qed

theorem C10_forward_key_first_witness:
  "std_map_inv demo_map_both
   \<and> map_of demo_map_both
         (iget (getIntGridProperty demo_props ''FLUXNUM'') 0,
          iget (getIntGridProperty demo_props ''FLUXNUM'') 1)
       = Some (demo_rule 1 2 (1/2) 63 NNC ''FLUXNUM'')
   \<and> applicable_in demo_props ''FLUXNUM'' demo_map_both 0 1 1 (2, 1)
   \<and> scan_regions demo_props [(''FLUXNUM'', demo_map_both)] 0 1 1 = Inr 1"
proof -
  let ?r = "demo_rule 1 2 (1/2) 63 NNC ''FLUXNUM''"
  let ?g = "getIntGridProperty demo_props ''FLUXNUM''"
  have h1: "std_map_inv demo_map_both" by (simp add: std_map_inv_def demo_map_both_def)
  have h2: "map_of demo_map_both (iget ?g 0, iget ?g 1) = Some ?r"
    by (simp add: demo_props_def demo_map_both_def)
  have h3: "directions ?r AND 1 \<noteq> 0" by (simp add: demo_rule_def)
  have h4: "0 < getNX ?g" and h5: "0 < getNY ?g" by (simp_all add: demo_props_def)
  have h6: "\<not> applyMultiplier (nnc_behaviour ?r) (coord_i ?g 0) (coord_i ?g 1)
                (coord_j ?g 0) (coord_j ?g 1)"
    by (simp add: demo_rule_def demo_props_def applyMultiplier_def short_neighbour_def
          coord_i_def coord_j_def abs32_def sub32_def to_int32_def)
  have h7: "iget ?g 0 \<noteq> iget ?g 1" by (simp add: demo_props_def)
  have h8: "applicable_in demo_props ''FLUXNUM'' demo_map_both 0 1 1 (2, 1)"
    by (simp add: applicable_in_def demo_rule_def applyMultiplier_def demo_map_both_def)
  show ?thesis
    using h1 h2 h6 h7 h8
      C10_forward_key_first [OF h1 h2 h3 h4 h5, of "demo_rule 2 1 7 63 ALL_nnc ''FLUXNUM''" "[]"]
    by simp
qed

end
